theory Spec2Isabelle
  imports Main
begin

section \<open>Python text primitives\<close>

text \<open>
  A Python \<open>str\<close> is modelled as a \<open>string\<close>, each character read as one code point
  in the range 0..255. The character classes below are the ones CPython uses for that
  range: \<open>str.isspace\<close>, the line boundaries of \<open>str.splitlines\<close>, and the
  word characters of the regular expression class \<open>\w\<close> on \<open>str\<close> patterns.
  Dictionaries whose iteration order the code relies on are association lists kept
  without duplicate keys by \<open>dict_set\<close>; writing to standard output and standard error
  is left out of the model except where a warning is part of the behaviour studied.
\<close>

definition is_space :: "char \<Rightarrow> bool" where
  "is_space c = (let n = (of_char c :: nat) in
     (9 \<le> n \<and> n \<le> 13) \<or> (28 \<le> n \<and> n \<le> 32) \<or> n = 133 \<or> n = 160)"

definition is_linebreak :: "char \<Rightarrow> bool" where
  "is_linebreak c = (let n = (of_char c :: nat) in
     (10 \<le> n \<and> n \<le> 13) \<or> (28 \<le> n \<and> n \<le> 30) \<or> n = 133)"

definition is_word :: "char \<Rightarrow> bool" where
  "is_word c = (let n = (of_char c :: nat) in
     (48 \<le> n \<and> n \<le> 57) \<or> (65 \<le> n \<and> n \<le> 90) \<or> n = 95 \<or> (97 \<le> n \<and> n \<le> 122) \<or>
     n = 170 \<or> n = 178 \<or> n = 179 \<or> n = 181 \<or> n = 185 \<or> n = 186 \<or>
     (188 \<le> n \<and> n \<le> 190) \<or> (192 \<le> n \<and> n \<le> 214) \<or> (216 \<le> n \<and> n \<le> 246) \<or>
     (248 \<le> n \<and> n \<le> 255))"

definition py_strip :: "string \<Rightarrow> string" where
  "py_strip s = rev (dropWhile is_space (rev (dropWhile is_space s)))"

definition startswith :: "string \<Rightarrow> string \<Rightarrow> bool" where
  "startswith s p = (take (length p) s = p)"

definition endswith :: "string \<Rightarrow> string \<Rightarrow> bool" where
  "endswith s p = (length p \<le> length s \<and> drop (length s - length p) s = p)"

text \<open>\<open>str.splitlines()\<close>: \<open>cur\<close> holds the characters of the line being read.\<close>

fun split_lines :: "string \<Rightarrow> string \<Rightarrow> string list" where
  "split_lines cur [] = (if cur = [] then [] else [cur])"
| "split_lines cur [c] = (if is_linebreak c then [cur] else [cur @ [c]])"
| "split_lines cur (c # d # cs) =
     (if c = CHR 0x0D \<and> d = CHR 0x0A then cur # split_lines [] cs
      else if is_linebreak c then cur # split_lines [] (d # cs)
      else split_lines (cur @ [c]) (d # cs))"

definition splitlines :: "string \<Rightarrow> string list" where
  "splitlines s = split_lines [] s"

text \<open>\<open>str.split()\<close> with no separator: the runs of characters that are not white space.\<close>

fun split_ws_from :: "string \<Rightarrow> string \<Rightarrow> string list" where
  "split_ws_from cur [] = (if cur = [] then [] else [cur])"
| "split_ws_from cur (c # cs) =
     (if is_space c then (if cur = [] then split_ws_from [] cs else cur # split_ws_from [] cs)
      else split_ws_from (cur @ [c]) cs)"

definition split_ws :: "string \<Rightarrow> string list" where
  "split_ws s = split_ws_from [] s"

text \<open>\<open>str.split(None, 1)\<close>: the first field, and the rest after the white space that
  follows it when that rest is not empty.\<close>

definition split_ws1 :: "string \<Rightarrow> string list" where
  "split_ws1 s =
     (let s1 = dropWhile is_space s;
          a = takeWhile (\<lambda>c. \<not> is_space c) s1;
          r = dropWhile is_space (dropWhile (\<lambda>c. \<not> is_space c) s1)
      in if a = [] then [] else if r = [] then [a] else [a, r])"

text \<open>\<open>str.split(sep)\<close> for a separator of one character.\<close>

fun split_on_from :: "char \<Rightarrow> string \<Rightarrow> string \<Rightarrow> string list" where
  "split_on_from sep cur [] = [cur]"
| "split_on_from sep cur (c # cs) =
     (if c = sep then cur # split_on_from sep [] cs else split_on_from sep (cur @ [c]) cs)"

definition split_on :: "char \<Rightarrow> string \<Rightarrow> string list" where
  "split_on sep s = split_on_from sep [] s"

text \<open>\<open>k, v = a.split("=", 1)\<close>, used by the code only where \<open>"=" in a\<close> holds.\<close>

definition split_eq1 :: "string \<Rightarrow> string \<times> string" where
  "split_eq1 a = (takeWhile (\<lambda>c. c \<noteq> CHR ''='') a, drop 1 (dropWhile (\<lambda>c. c \<noteq> CHR ''='') a))"

definition has_eq :: "string \<Rightarrow> bool" where
  "has_eq a = (CHR ''='' \<in> set a)"

fun join_with :: "string \<Rightarrow> string list \<Rightarrow> string" where
  "join_with sep [] = []"
| "join_with sep [x] = x"
| "join_with sep (x # y # r) = x @ sep @ join_with sep (y # r)"

text \<open>\<open>d[k] = v\<close> on an insertion-ordered dictionary: an existing key keeps its place.\<close>

fun dict_set :: "string \<Rightarrow> 'v \<Rightarrow> (string \<times> 'v) list \<Rightarrow> (string \<times> 'v) list" where
  "dict_set k v [] = [(k, v)]"
| "dict_set k v ((k', v') # d) = (if k' = k then (k, v) # d else (k', v') # dict_set k v d)"


section \<open>Interpolation (pf.py)\<close>

text \<open>
  \<open>_VAR_RE = re.compile(r"\$(\w+)|\$\{(\w+)\}")\<close> and \<open>_VAR_RE.sub(repl, text)\<close>:
  one scan from left to right. At a dollar sign the first alternative takes the longest
  run of word characters; when that run is empty the second alternative needs an opening
  brace, a non-empty run of word characters and a closing brace. The scan goes on after
  the match; a character that starts no match is copied. \<open>merged\<close> is the process
  environment, updated with \<open>extra_env\<close>, updated with \<open>params\<close>.
\<close>

type_synonym pydict = "(string \<times> string) list"

definition merged_scope :: "(string \<rightharpoonup> string) \<Rightarrow> pydict \<Rightarrow> pydict \<Rightarrow> (string \<rightharpoonup> string)" where
  "merged_scope environ params extra_env = environ ++ map_of extra_env ++ map_of params"

definition repl :: "(string \<rightharpoonup> string) \<Rightarrow> string \<Rightarrow> string \<Rightarrow> string" where
  "repl merged key whole = (case merged key of Some v \<Rightarrow> v | None \<Rightarrow> whole)"

function var_sub :: "(string \<rightharpoonup> string) \<Rightarrow> string \<Rightarrow> string" where
  "var_sub merged [] = []"
| "var_sub merged (c # cs) =
     (if c = CHR ''$'' then
        (let name = takeWhile is_word cs in
         if name \<noteq> [] then
           repl merged name (CHR ''$'' # name) @ var_sub merged (dropWhile is_word cs)
         else
           (case cs of
              [] \<Rightarrow> [c]
            | b # bs \<Rightarrow>
               (let bname = takeWhile is_word bs; after = dropWhile is_word bs in
                if b = CHR ''{'' \<and> bname \<noteq> [] \<and> startswith after ''}''
                then repl merged bname (''${'' @ bname @ ''}'') @ var_sub merged (drop 1 after)
                else c # var_sub merged cs)))
      else c # var_sub merged cs)"
  by pat_completeness auto
termination
proof (relation "measure (\<lambda>(m, s). length s)", goal_cases)
  case (2 merged c cs x)
  then show ?case
    using length_dropWhile_le [of is_word cs] by simp
next
  case (3 merged c cs x b bs y z)
  then show ?case
    using length_dropWhile_le [of is_word bs] by simp
qed simp_all

definition interpolate :: "(string \<rightharpoonup> string) \<Rightarrow> string \<Rightarrow> pydict \<Rightarrow> pydict \<Rightarrow> string" where
  "interpolate environ text params extra_env = var_sub (merged_scope environ params extra_env) text"


section \<open>Exceptions and standard-library helpers\<close>

text \<open>
  Every exception the code can raise is a value. \<open>OSError\<close> stands for whatever the
  operating system or the remote-shell collaborator raises (a file that cannot be read,
  a transfer that fails, a session that drops).
\<close>

datatype exn = ValueError string | IndexError | TypeError | AttributeError | OSError

text \<open>\<open>shlex.split(s)\<close>: the POSIX lexer with \<open>whitespace_split\<close> set and no comment
  characters. The lexer's states are the blank state, the inside of a word, the inside
  of a quotation opened by the given quote character, and the state after a backslash,
  which remembers the quotation it returns to (none when it was met in a word).
  \<open>quoted\<close> records that the token being read had a quotation, so that an empty
  quoted token is kept.\<close>

datatype lexstate = Blank | InWord | InQuote char | Escaped "char option"

definition shlex_ws :: "char \<Rightarrow> bool" where
  "shlex_ws c = (c = CHR '' '' \<or> c = CHR 0x09 \<or> c = CHR 0x0D \<or> c = CHR 0x0A)"

definition shlex_quote_char :: "char \<Rightarrow> bool" where
  "shlex_quote_char c = (c = CHR 0x27 \<or> c = CHR 0x22)"

definition emit_token :: "string \<Rightarrow> exn + string list \<Rightarrow> exn + string list" where
  "emit_token tok r = (case r of Inl e \<Rightarrow> Inl e | Inr ts \<Rightarrow> Inr (tok # ts))"

fun shlex_scan :: "lexstate \<Rightarrow> string \<Rightarrow> bool \<Rightarrow> string \<Rightarrow> exn + string list" where
  "shlex_scan st tok quoted [] =
     (case st of
        Blank \<Rightarrow> Inr []
      | InWord \<Rightarrow> (if tok \<noteq> [] \<or> quoted then Inr [tok] else Inr [])
      | InQuote q \<Rightarrow> Inl (ValueError ''No closing quotation'')
      | Escaped r \<Rightarrow> Inl (ValueError ''No escaped character''))"
| "shlex_scan st tok quoted (c # cs) =
     (case st of
        Blank \<Rightarrow>
          (if shlex_ws c then shlex_scan Blank tok quoted cs
           else if c = CHR 0x5C then shlex_scan (Escaped None) tok quoted cs
           else if shlex_quote_char c then shlex_scan (InQuote c) tok quoted cs
           else shlex_scan InWord [c] quoted cs)
      | InQuote q \<Rightarrow>
          (if c = q then shlex_scan InWord tok True cs
           else if c = CHR 0x5C \<and> q = CHR 0x22 then shlex_scan (Escaped (Some q)) tok True cs
           else shlex_scan (InQuote q) (tok @ [c]) True cs)
      | Escaped r \<Rightarrow>
          (case r of
             None \<Rightarrow> shlex_scan InWord (tok @ [c]) quoted cs
           | Some q \<Rightarrow>
               shlex_scan (InQuote q)
                 ((if c \<noteq> CHR 0x5C \<and> c \<noteq> q then tok @ [CHR 0x5C] else tok) @ [c]) quoted cs)
      | InWord \<Rightarrow>
          (if shlex_ws c then
             (if tok \<noteq> [] \<or> quoted then emit_token tok (shlex_scan Blank [] False cs)
              else shlex_scan Blank tok quoted cs)
           else if shlex_quote_char c then shlex_scan (InQuote c) tok quoted cs
           else if c = CHR 0x5C then shlex_scan (Escaped None) tok quoted cs
           else shlex_scan InWord (tok @ [c]) quoted cs))"

definition shlex_split :: "string \<Rightarrow> exn + string list" where
  "shlex_split s = shlex_scan Blank [] False s"

text \<open>\<open>shlex.quote(s)\<close>: the safe characters are those of
  \<open>[\w@%+=:,./-]\<close> under \<open>re.ASCII\<close>.\<close>

definition shlex_safe :: "char \<Rightarrow> bool" where
  "shlex_safe c = (let n = (of_char c :: nat) in
     (48 \<le> n \<and> n \<le> 57) \<or> (65 \<le> n \<and> n \<le> 90) \<or> n = 95 \<or> (97 \<le> n \<and> n \<le> 122) \<or>
     c \<in> set ''@%+=:,./-'')"

definition shlex_quote :: "string \<Rightarrow> string" where
  "shlex_quote s =
     (if s = [] then [CHR 0x27, CHR 0x27]
      else if list_all shlex_safe s then s
      else [CHR 0x27]
           @ concat (map (\<lambda>c. if c = CHR 0x27 then [CHR 0x27, CHR 0x22, CHR 0x27, CHR 0x22, CHR 0x27] else [c]) s)
           @ [CHR 0x27])"

text \<open>\<open>str(n)\<close> for an integer.\<close>

function show_nat :: "nat \<Rightarrow> string" where
  "show_nat n = (if n < 10 then [char_of (48 + n)] else show_nat (n div 10) @ [char_of (48 + n mod 10)])"
  by pat_completeness auto
termination
  by (relation "measure id") auto

definition show_int :: "int \<Rightarrow> string" where
  "show_int i = (if i < 0 then CHR ''-'' # show_nat (nat (- i)) else show_nat (nat i))"

text \<open>\<open>int(s)\<close> for a string, base ten. CPython first turns every white-space
  character beyond ASCII into a space (below code point 256 these are the next-line
  character and the no-break space; no character beyond ASCII is a decimal digit
  there), then strips the white space of C (\<open>\t\n\v\f\r\<close> and the space) at both
  ends. After an optional sign come decimal digits, single underscores allowed between
  digits.\<close>

definition c_space :: "char \<Rightarrow> bool" where
  "c_space c = (let n = (of_char c :: nat) in (9 \<le> n \<and> n \<le> 13) \<or> n = 32)"

definition ascii_digit :: "char \<Rightarrow> bool" where
  "ascii_digit c = (let n = (of_char c :: nat) in 48 \<le> n \<and> n \<le> 57)"

definition digit_val :: "char \<Rightarrow> int" where
  "digit_val c = int (of_char c) - 48"

text \<open>\<open>digits_val acc after_digit s\<close>: the value of the digits of \<open>s\<close>, where
  \<open>after_digit\<close> says that the character before was a digit (so that an underscore
  may stand here).\<close>

fun digits_val :: "int \<Rightarrow> bool \<Rightarrow> string \<Rightarrow> int option" where
  "digits_val acc after_digit [] = (if after_digit then Some acc else None)"
| "digits_val acc after_digit (c # cs) =
     (if ascii_digit c then digits_val (10 * acc + digit_val c) True cs
      else if c = CHR ''_'' \<and> after_digit \<and> cs \<noteq> [] \<and> ascii_digit (hd cs) then digits_val acc False cs
      else None)"

definition py_int :: "string \<Rightarrow> int option" where
  "py_int s =
     (let s1 = map (\<lambda>c. if (of_char c :: nat) \<ge> 127 \<and> is_space c then CHR '' '' else c) s;
          s2 = rev (dropWhile c_space (rev (dropWhile c_space s1)))
      in case s2 of
           [] \<Rightarrow> None
         | c # cs \<Rightarrow>
             if c = CHR ''-'' then map_option uminus (digits_val 0 False cs)
             else if c = CHR ''+'' then digits_val 0 False cs
             else digits_val 0 False (c # cs))"

text \<open>\<open>str.isdigit()\<close>: not empty, and every character a digit of Unicode (the ASCII
  digits and the superscripts two, three and one below code point 256).\<close>

definition py_isdigit :: "string \<Rightarrow> bool" where
  "py_isdigit s = (s \<noteq> [] \<and> list_all (\<lambda>c. ascii_digit c \<or> (of_char c :: nat) \<in> {178, 179, 185}) s)"

text \<open>\<open>str.replace(old, new)\<close>: the occurrences of \<open>old\<close> that do not overlap, from
  the left.\<close>

function replace_all :: "string \<Rightarrow> string \<Rightarrow> string \<Rightarrow> string" where
  "replace_all old new [] = (if old = [] then new else [])"
| "replace_all old new (c # cs) =
     (if old = [] then new @ c # replace_all old new cs
      else if startswith (c # cs) old then new @ replace_all old new (drop (length old) (c # cs))
      else c # replace_all old new cs)"
  by pat_completeness auto
termination
  by (relation "measure (\<lambda>(old, new, s). length s)") auto

text \<open>POSIX paths: \<open>os.path.isabs\<close>, \<open>os.path.join\<close> of two parts (called by the code
  only with a second part that is not absolute), \<open>os.path.normpath\<close> and
  \<open>os.path.dirname\<close>.\<close>

definition isabs :: "string \<Rightarrow> bool" where
  "isabs p = startswith p ''/''"

definition path_join :: "string \<Rightarrow> string \<Rightarrow> string" where
  "path_join a b =
     (if startswith b ''/'' then b
      else if a = [] \<or> endswith a ''/'' then a @ b
      else a @ ''/'' @ b)"

fun norm_comps :: "bool \<Rightarrow> string list \<Rightarrow> string list \<Rightarrow> string list" where
  "norm_comps initial_slashes new_comps [] = new_comps"
| "norm_comps initial_slashes new_comps (part # comps) =
     (if part = [] \<or> part = ''.'' then norm_comps initial_slashes new_comps comps
      else if part \<noteq> ''..'' \<or> (\<not> initial_slashes \<and> new_comps = [])
              \<or> (new_comps \<noteq> [] \<and> last new_comps = ''..'')
        then norm_comps initial_slashes (new_comps @ [part]) comps
      else if new_comps \<noteq> [] then norm_comps initial_slashes (butlast new_comps) comps
      else norm_comps initial_slashes new_comps comps)"

definition normpath :: "string \<Rightarrow> string" where
  "normpath path =
     (if path = [] then ''.''
      else
        (let initial_slashes =
               (if startswith path ''/''
                then (if startswith path ''//'' \<and> \<not> startswith path ''///'' then 2 else 1)
                else (0::nat));
             comps = norm_comps (initial_slashes \<noteq> 0) [] (split_on CHR ''/'' path);
             p = replicate initial_slashes CHR ''/'' @ join_with ''/'' comps
         in if p = [] then ''.'' else p))"

definition dirname :: "string \<Rightarrow> string" where
  "dirname p =
     (let head = rev (dropWhile (\<lambda>c. c \<noteq> CHR ''/'') (rev p))
      in if head \<noteq> [] \<and> \<not> list_all (\<lambda>c. c = CHR ''/'') head
         then rev (dropWhile (\<lambda>c. c = CHR ''/'') (rev head))
         else head)"


section \<open>The loader (pf.py): include expansion and the line-oriented parser\<close>

text \<open>
  The file system is a finite table from path to node; a path is looked up as the string
  the code computes. A node is a text file, or something \<open>os.path.exists\<close> accepts and
  \<open>_read_text_file\<close> cannot read (a directory, a file it may not open), where the read
  raises.

  The state of one load is the set \<open>visited\<close>, the warnings printed to standard error,
  and \<open>reads\<close>, the paths handed to \<open>_read_text_file\<close> in the order of the calls.
\<close>

datatype fnode = Text string | Unreadable

type_synonym fsys = "(string \<times> fnode) list"

record xstate =
  visited :: "string set"
  warnings :: "string list"
  reads :: "string list"

definition rstrip_nl :: "string \<Rightarrow> string" where
  "rstrip_nl s = rev (dropWhile (\<lambda>c. c = CHR 0x0A) (rev s))"

text \<open>The tokens of an include line: \<open>shlex.split\<close>, and \<open>str.split\<close> when it raises
  \<open>ValueError\<close>.\<close>

definition include_tokens :: "string \<Rightarrow> string list" where
  "include_tokens stripped = (case shlex_split stripped of Inr toks \<Rightarrow> toks | Inl e \<Rightarrow> split_ws stripped)"

text \<open>\<open>include_target base_dir inside_task stripped\<close> is the resolved path \<open>inc_full\<close>
  when the line is taken as an inclusion directive: outside a task, starting with
  \<open>include\<close> and a space, with two tokens or more.\<close>

definition include_target :: "string \<Rightarrow> bool \<Rightarrow> string \<Rightarrow> string option" where
  "include_target base_dir inside_task stripped =
     (if \<not> inside_task \<and> startswith stripped ''include '' then
        (let toks = include_tokens stripped in
         if length toks \<ge> 2 then
           (let inc_path = toks ! 1;
                inc_full = (if isabs inc_path then inc_path else path_join base_dir inc_path)
            in Some (normpath inc_full))
         else None)
      else None)"

definition warn_not_found :: "string \<Rightarrow> string" where
  "warn_not_found inc_full = ''[warn] include file not found: '' @ inc_full"

text \<open>The value returned from the joined output lines.\<close>

definition finish_text :: "string list \<Rightarrow> string" where
  "finish_text out_lines =
     join_with [CHR 0x0A] out_lines
       @ (if out_lines \<noteq> [] \<and> \<not> endswith (last out_lines) [CHR 0x0A] then [CHR 0x0A] else [])"

definition append_out ::
  "string list \<Rightarrow> ((exn + string list) \<times> xstate) option \<Rightarrow> ((exn + string list) \<times> xstate) option" where
  "append_out ls r =
     (case r of
        None \<Rightarrow> None
      | Some (Inl e, st) \<Rightarrow> Some (Inl e, st)
      | Some (Inr out_lines, st) \<Rightarrow> Some (Inr (ls @ out_lines), st))"

text \<open>
  The loop of \<open>_expand_includes_from_text\<close> over the lines still to read; the result is
  the list \<open>out_lines\<close> these lines add, or the exception raised, with the state of the
  load. The first argument bounds the depth of nested inclusion: the result is \<open>None\<close>
  when an included file would be opened deeper than that (the recursion limit of the
  interpreter itself is not modelled).
\<close>

function expand_lines ::
  "nat \<Rightarrow> fsys \<Rightarrow> string \<Rightarrow> string list \<Rightarrow> bool \<Rightarrow> xstate \<Rightarrow> ((exn + string list) \<times> xstate) option" where
  "expand_lines depth fs base_dir [] inside_task st = Some (Inr [], st)"
| "expand_lines depth fs base_dir (raw # rest) inside_task st =
     (let line = rstrip_nl raw; stripped = py_strip line in
      if startswith stripped ''task '' then
        append_out [line] (expand_lines depth fs base_dir rest True st)
      else if stripped = ''end'' then
        append_out [line] (expand_lines depth fs base_dir rest False st)
      else
        (case include_target base_dir inside_task stripped of
           None \<Rightarrow> append_out [line] (expand_lines depth fs base_dir rest inside_task st)
         | Some inc_full \<Rightarrow>
             if inc_full \<in> visited st then expand_lines depth fs base_dir rest inside_task st
             else
               (case map_of fs inc_full of
                  None \<Rightarrow>
                    expand_lines depth fs base_dir rest inside_task
                      (st\<lparr>warnings := warnings st @ [warn_not_found inc_full]\<rparr>)
                | Some node \<Rightarrow>
                    (let st1 = st\<lparr>visited := insert inc_full (visited st),
                                   reads := reads st @ [inc_full]\<rparr>
                     in case node of
                          Unreadable \<Rightarrow> Some (Inl OSError, st1)
                        | Text inc_text \<Rightarrow>
                            (case depth of
                               0 \<Rightarrow> None
                             | Suc d \<Rightarrow>
                                 (case expand_lines d fs (dirname inc_full) (splitlines inc_text) False st1 of
                                    None \<Rightarrow> None
                                  | Some (Inl e, st2) \<Rightarrow> Some (Inl e, st2)
                                  | Some (Inr sub_lines, st2) \<Rightarrow>
                                      append_out
                                        [''# --- begin include: '' @ inc_full @ '' ---'',
                                         finish_text sub_lines,
                                         ''# --- end include: '' @ inc_full @ '' ---'']
                                        (expand_lines depth fs base_dir rest inside_task st2)))))))"
  by pat_completeness auto
termination
  by (relation "measures [\<lambda>(depth, fs, base_dir, ls, inside_task, st). depth,
                          \<lambda>(depth, fs, base_dir, ls, inside_task, st). length ls]") auto

definition expand_includes_from_text ::
  "nat \<Rightarrow> fsys \<Rightarrow> string \<Rightarrow> string \<Rightarrow> xstate \<Rightarrow> ((exn + string) \<times> xstate) option" where
  "expand_includes_from_text depth fs text base_dir st =
     (case expand_lines depth fs base_dir (splitlines text) False st of
        None \<Rightarrow> None
      | Some (Inl e, st') \<Rightarrow> Some (Inl e, st')
      | Some (Inr out_lines, st') \<Rightarrow> Some (Inr (finish_text out_lines), st'))"

text \<open>\<open>PFY_EMBED\<close>, the source used when no task file exists.\<close>

definition PFY_EMBED :: string where
  "PFY_EMBED = [CHR 0x0A] @ ''task include_demo'' @ [CHR 0x0A]
     @ ''  describe Shows that this file is active even without Pfyfile.pf'' @ [CHR 0x0A]
     @ ''  shell echo '' @ [CHR 0x22] @ ''Include demo task ran.'' @ [CHR 0x22] @ [CHR 0x0A]
     @ ''end'' @ [CHR 0x0A]"

text \<open>\<open>_load_pfy_source_with_includes\<close>, for the task file \<open>pfy_resolved\<close> that
  \<open>_find_pfyfile\<close> returned, given here as an absolute normalised path (so that
  \<open>os.path.abspath\<close> leaves it as it is).\<close>

definition load_pfy_source_with_includes ::
  "nat \<Rightarrow> fsys \<Rightarrow> string \<Rightarrow> ((exn + string) \<times> xstate) option" where
  "load_pfy_source_with_includes depth fs pfy_resolved =
     (let st0 = \<lparr>visited = {pfy_resolved}, warnings = [], reads = [pfy_resolved]\<rparr> in
      case map_of fs pfy_resolved of
        None \<Rightarrow> Some (Inr PFY_EMBED, \<lparr>visited = {}, warnings = [], reads = []\<rparr>)
      | Some Unreadable \<Rightarrow> Some (Inl OSError, st0)
      | Some (Text main_text) \<Rightarrow>
          (let d = dirname pfy_resolved; base_dir = (if d = [] then ''.'' else d)
           in expand_includes_from_text depth fs main_text base_dir st0))"

text \<open>
  \<open>parse_pfyfile_text\<close>. The catalog is the dictionary \<open>tasks\<close> in insertion order;
  \<open>cur\<close> is the name of the task whose object the variable \<open>cur\<close> refers to (that
  object is always the one stored under its name). \<open>line.split(None, 1)[1]\<close> raises
  \<open>IndexError\<close> when the split yields one field.
\<close>

record task =
  lines :: "string list"
  description :: "string option"

type_synonym catalog = "(string \<times> task) list"

definition cur_add :: "string \<Rightarrow> string \<Rightarrow> catalog \<Rightarrow> catalog" where
  "cur_add name line tasks =
     map (\<lambda>(n, t). if n = name then (n, t\<lparr>lines := lines t @ [line]\<rparr>) else (n, t)) tasks"

definition cur_describe :: "string \<Rightarrow> string \<Rightarrow> catalog \<Rightarrow> catalog" where
  "cur_describe name d tasks =
     map (\<lambda>(n, t). if n = name \<and> description t = None then (n, t\<lparr>description := Some d\<rparr>) else (n, t)) tasks"

fun parse_lines :: "string list \<Rightarrow> catalog \<Rightarrow> string option \<Rightarrow> exn + catalog" where
  "parse_lines [] tasks cur = Inr tasks"
| "parse_lines (raw # rest) tasks cur =
     (let line = py_strip raw in
      if line = [] \<or> startswith line ''#'' then parse_lines rest tasks cur
      else if startswith line ''task '' then
        (case split_ws1 line of
           [f, r] \<Rightarrow>
             (let name = py_strip r in
              if name = [] then Inl (ValueError ''Task name missing.'')
              else parse_lines rest (dict_set name \<lparr>lines = [], description = None\<rparr> tasks) (Some name))
         | _ \<Rightarrow> Inl IndexError)
      else if line = ''end'' then parse_lines rest tasks None
      else
        (case cur of
           None \<Rightarrow> parse_lines rest tasks cur
         | Some name \<Rightarrow>
             if startswith line ''describe '' then
               (case split_ws1 line of
                  [f, r] \<Rightarrow> parse_lines rest (cur_describe name (py_strip r) tasks) cur
                | _ \<Rightarrow> Inl IndexError)
             else parse_lines rest (cur_add name line tasks) cur))"

definition parse_pfyfile_text :: "string \<Rightarrow> exn + catalog" where
  "parse_pfyfile_text text = parse_lines (splitlines text) [] None"


section \<open>Targets (pf.py)\<close>

text \<open>A value of \<open>ENV_MAP\<close> is a string of comma-separated hosts or a list of such
  values.\<close>

datatype hosts_spec = HostStr string | HostList "hosts_spec list"

definition split_hosts :: "string \<Rightarrow> string list" where
  "split_hosts s = filter (\<lambda>t. t \<noteq> []) (map py_strip (split_on CHR '','' s))"

fun normalize_hosts :: "hosts_spec \<Rightarrow> string list" where
  "normalize_hosts (HostStr s) = split_hosts s"
| "normalize_hosts (HostList specs) = concat (map normalize_hosts specs)"

definition ENV_MAP :: "(string \<times> hosts_spec) list" where
  "ENV_MAP =
     [(''local'', HostList [HostStr ''@local'']),
      (''prod'', HostList [HostStr ''ubuntu@10.0.0.5:22'', HostStr ''punk@10.4.4.4:24'']),
      (''staging'', HostStr ''staging@10.1.2.3:22,staging@10.1.2.4:22'')]"

fun merge_env_hosts :: "string list \<Rightarrow> string list" where
  "merge_env_hosts [] = []"
| "merge_env_hosts (name # names) =
     (case map_of ENV_MAP name of
        None \<Rightarrow> merge_env_hosts names
      | Some spec \<Rightarrow> normalize_hosts spec @ merge_env_hosts names)"

fun dedupe_from :: "string list \<Rightarrow> string list \<Rightarrow> string list" where
  "dedupe_from seen [] = []"
| "dedupe_from seen (it # items) =
     (if it \<in> set seen then dedupe_from seen items else it # dedupe_from (it # seen) items)"

definition dedupe_preserve_order :: "string list \<Rightarrow> string list" where
  "dedupe_preserve_order items = dedupe_from [] items"

text \<open>The target list of \<open>main\<close>: the hosts of the named environments, then the
  \<open>host=\<close>/\<open>hosts=\<close> specifications, without repetitions; the local target when that
  list is empty.\<close>

definition resolve_hosts :: "string list \<Rightarrow> string list \<Rightarrow> string list" where
  "resolve_hosts env_names host_specs =
     (let env_hosts = merge_env_hosts env_names;
          merged_hosts = dedupe_preserve_order (env_hosts @ host_specs)
      in if merged_hosts = [] then [''@local''] else merged_hosts)"

datatype target = Local | Remote "string option" string "int option"

definition truthy :: "string option \<Rightarrow> bool" where
  "truthy v = (case v of None \<Rightarrow> False | Some s \<Rightarrow> s \<noteq> [])"

definition split_at1 :: "char \<Rightarrow> string \<Rightarrow> string \<times> string" where
  "split_at1 sep a = (takeWhile (\<lambda>c. c \<noteq> sep) a, drop 1 (dropWhile (\<lambda>c. c \<noteq> sep) a))"

definition parse_host :: "string \<Rightarrow> string option \<Rightarrow> string option \<Rightarrow> exn + target" where
  "parse_host h default_user default_port =
     (if h = ''@local'' then Inr Local
      else
        (let (user, host1) = (if CHR ''@'' \<in> set h then (Some (fst (split_at1 CHR ''@'' h)), snd (split_at1 CHR ''@'' h))
                              else (default_user, h));
             (host, port) = (if CHR '':'' \<in> set host1 then (fst (split_at1 CHR '':'' host1), Some (snd (split_at1 CHR '':'' host1)))
                             else (host1, default_port))
         in if truthy port then
              (case py_int (the port) of
                 None \<Rightarrow> Inl (ValueError ''invalid literal for int()'')
               | Some n \<Rightarrow> Inr (Remote user host (Some n)))
            else Inr (Remote user host None)))"

text \<open>The \<open>Connection\<close> object that \<open>_c_for\<close> builds for a remote target.\<close>

record conn =
  conn_host :: string
  conn_user :: "string option"
  conn_port :: int

definition c_for :: "target \<Rightarrow> conn option" where
  "c_for spec =
     (case spec of
        Local \<Rightarrow> None
      | Remote user host port \<Rightarrow>
          Some \<lparr>conn_host = host, conn_user = user,
                conn_port = (case port of None \<Rightarrow> 22 | Some n \<Rightarrow> if n \<noteq> 0 then n else 22)\<rparr>)"


section \<open>The verb executor (pf.py)\<close>

text \<open>
  The collaborators are an oracle: asked with the requests made so far on this target
  and their answers, and the next request, it answers with an exit status, or with
  \<open>None\<close> when the call raises. For a request that is not a command the status is not
  read. The trace of a target is the list of its requests with their answers.
  \<open>RunLocal\<close> carries the command line and the variables laid over the process
  environment; \<open>RunRemote\<close> the command line given to the session.
\<close>

datatype request =
    SessionOpen
  | SessionClose
  | RunLocal string pydict
  | RunRemote string
  | PutFile string string
  | MakeDirs string
  | CopyFile string string

type_synonym trace = "(request \<times> int option) list"

type_synonym world = "trace \<Rightarrow> request \<Rightarrow> int option"

definition ask :: "world \<Rightarrow> request \<Rightarrow> trace \<Rightarrow> (exn + int) \<times> trace" where
  "ask w rq tr =
     (case w tr rq of
        None \<Rightarrow> (Inl OSError, tr @ [(rq, None)])
      | Some n \<Rightarrow> (Inr n, tr @ [(rq, Some n)]))"

text \<open>Sequencing: the second step runs when the first returned.\<close>

definition and_then ::
  "(exn + 'a) \<times> trace \<Rightarrow> ('a \<Rightarrow> trace \<Rightarrow> (exn + 'b) \<times> trace) \<Rightarrow> (exn + 'b) \<times> trace" where
  "and_then r f = (case r of (Inl e, tr) \<Rightarrow> (Inl e, tr) | (Inr a, tr) \<Rightarrow> f a tr)"

definition sudo_wrap :: "string \<Rightarrow> string option \<Rightarrow> string" where
  "sudo_wrap cmd sudo_user =
     (if truthy sudo_user
      then ''sudo -u '' @ shlex_quote (the sudo_user) @ '' -H bash -lc '' @ shlex_quote cmd
      else ''sudo bash -lc '' @ shlex_quote cmd)"

text \<open>What the executor is called with besides the line: the oracle, the process
  environment, the connection (none for the local target), the sudo flag and user, the
  parameters of the invocation and the task-local environment.\<close>

record ctx =
  the_world :: world
  environ :: "string \<rightharpoonup> string"
  connection :: "conn option"
  sudo :: bool
  sudo_user :: "string option"

text \<open>The inner function \<open>run(cmd)\<close>.\<close>

definition run :: "ctx \<Rightarrow> pydict \<Rightarrow> pydict \<Rightarrow> string \<Rightarrow> trace \<Rightarrow> (exn + int) \<times> trace" where
  "run cx params task_env cmd tr =
     (case connection cx of
        None \<Rightarrow>
          (let full = (if \<not> sudo cx then cmd else sudo_wrap cmd (sudo_user cx));
               overlay = map (\<lambda>(k, v). (k, interpolate (environ cx) v params task_env)) task_env
           in ask (the_world cx) (RunLocal full overlay) tr)
      | Some c \<Rightarrow>
          (let exports = join_with '' '' (map (\<lambda>(k, v). ''export '' @ k @ ''='' @ shlex_quote v @ '';'') task_env);
               full_cmd = (if exports \<noteq> [] then exports @ '' '' @ cmd else cmd);
               full_cmd = (if sudo cx then sudo_wrap full_cmd (sudo_user cx) else full_cmd)
           in ask (the_world cx) (RunRemote full_cmd) tr))"

fun split_kv_from :: "string list \<Rightarrow> pydict \<Rightarrow> string list \<Rightarrow> string list \<times> pydict" where
  "split_kv_from pos kv [] = (pos, kv)"
| "split_kv_from pos kv (a # args) =
     (if has_eq a then split_kv_from pos (dict_set (fst (split_eq1 a)) (snd (split_eq1 a)) kv) args
      else split_kv_from (pos @ [a]) kv args)"

definition split_kv :: "string list \<Rightarrow> string list \<times> pydict" where
  "split_kv args = split_kv_from [] [] args"

definition or_empty :: "string option \<Rightarrow> string" where
  "or_empty v = (case v of None \<Rightarrow> [] | Some s \<Rightarrow> s)"

text \<open>The two follow-up steps of \<open>copy\<close>, the same for both kinds of target: the exit
  status of \<open>chmod\<close> and of \<open>chown\<close> is not read, and the verb returns 0.\<close>

definition copy_followup ::
  "ctx \<Rightarrow> pydict \<Rightarrow> pydict \<Rightarrow> string \<Rightarrow> string option \<Rightarrow> string option \<Rightarrow> string option \<Rightarrow> trace
     \<Rightarrow> (exn + int) \<times> trace" where
  "copy_followup cx params task_env remote mode owner grp tr =
     and_then
       (if truthy mode
        then run cx params task_env (''chmod '' @ shlex_quote (the mode) @ '' '' @ shlex_quote remote) tr
        else (Inr 0, tr))
       (\<lambda>_ tr1.
          and_then
            (if truthy owner \<or> truthy grp
             then run cx params task_env
                    (''chown '' @ or_empty owner @ '':'' @ or_empty grp @ '' '' @ shlex_quote remote) tr1
             else (Inr 0, tr1))
            (\<lambda>_ tr2. (Inr 0, tr2)))"

definition service_actions :: "string list" where
  "service_actions = [''start'', ''stop'', ''enable'', ''disable'', ''restart'']"

definition exec_line_fabric ::
  "ctx \<Rightarrow> string \<Rightarrow> pydict \<Rightarrow> pydict \<Rightarrow> trace \<Rightarrow> (exn + int) \<times> trace" where
  "exec_line_fabric cx line0 params task_env tr =
     (let line = interpolate (environ cx) line0 params task_env in
      case shlex_split line of
        Inl e \<Rightarrow> (Inl e, tr)
      | Inr [] \<Rightarrow> (Inr 0, tr)
      | Inr (verb # args) \<Rightarrow>
          if verb = ''shell'' then
            (let cmd = join_with '' '' args in
             if cmd = [] then (Inl (ValueError ''shell needs a command''), tr)
             else run cx params task_env cmd tr)
          else if verb = ''packages'' then
            (if length args < 2 then (Inl (ValueError ''packages install/remove <names...>''), tr)
             else
               (let action = hd args; names = tl args in
                if action = ''install'' then run cx params task_env (join_with '' '' (''apt -y install'' # names)) tr
                else if action = ''remove'' then run cx params task_env (join_with '' '' (''apt -y remove'' # names)) tr
                else (Inl (ValueError (''Unknown packages action: '' @ action)), tr)))
          else if verb = ''service'' then
            (if length args < 2
             then (Inl (ValueError ''service <start|stop|enable|disable|restart> <name>''), tr)
             else
               (let action = args ! 0; name = args ! 1 in
                if action \<notin> set service_actions
                then (Inl (ValueError (''Unknown service action: '' @ action)), tr)
                else run cx params task_env (''systemctl '' @ action @ '' '' @ shlex_quote name) tr))
          else if verb = ''directory'' then
            (let (pos, kv) = split_kv args in
             if pos = [] then (Inl (ValueError ''directory <path> [mode=0755]''), tr)
             else
               (let path = hd pos; mode = map_of kv ''mode'' in
                and_then (run cx params task_env (''mkdir -p '' @ shlex_quote path) tr)
                  (\<lambda>rc tr1.
                     if rc = 0 \<and> truthy mode
                     then run cx params task_env (''chmod '' @ shlex_quote (the mode) @ '' '' @ shlex_quote path) tr1
                     else (Inr rc, tr1))))
          else if verb = ''copy'' then
            (let (pos, kv) = split_kv args in
             if length pos < 2
             then (Inl (ValueError ''copy <local> <remote> [mode=0644] [user=...] [group=...]''), tr)
             else
               (let local = pos ! 0; remote = pos ! 1;
                    mode = map_of kv ''mode''; owner = map_of kv ''user''; grp = map_of kv ''group''
                in case connection cx of
                     None \<Rightarrow>
                       and_then (ask (the_world cx) (MakeDirs (dirname remote)) tr)
                         (\<lambda>_ tr1.
                            and_then (ask (the_world cx) (CopyFile local remote) tr1)
                              (\<lambda>_ tr2. copy_followup cx params task_env remote mode owner grp tr2))
                   | Some c \<Rightarrow>
                       and_then (ask (the_world cx) (PutFile local remote) tr)
                         (\<lambda>_ tr1. copy_followup cx params task_env remote mode owner grp tr1)))
          else if verb = ''describe'' then (Inr 0, tr)
          else if verb = ''env'' then (Inr 0, tr)
          else (Inl (ValueError (''Unknown verb: '' @ verb)), tr))"


section \<open>The task runner and the dispatcher (pf.py)\<close>

text \<open>How a loop of \<open>run_host\<close> leaves: it runs to its end with a value, or the function
  returns an exit code from inside it, or an exception leaves the function.\<close>

datatype 'a flow = Continue 'a | Return int | Raise exn

text \<open>The tokens after the first of an \<open>env\<close> line, from left to right: a token with an
  equals sign sets a variable to its value, interpolated against the scope so far.\<close>

fun env_assign :: "(string \<rightharpoonup> string) \<Rightarrow> pydict \<Rightarrow> string list \<Rightarrow> pydict \<Rightarrow> pydict" where
  "env_assign env0 params [] task_env = task_env"
| "env_assign env0 params (tok # toks) task_env =
     (if has_eq tok
      then env_assign env0 params toks
             (dict_set (fst (split_eq1 tok)) (interpolate env0 (snd (split_eq1 tok)) params task_env) task_env)
      else env_assign env0 params toks task_env)"

text \<open>The loop over the lines of one selected task. \<open>shlex.split\<close> of an \<open>env\<close> line
  stands outside the \<open>try\<close>, so its \<open>ValueError\<close> leaves \<open>run_host\<close>; an exception of
  the executor is caught and the function returns 1.\<close>

fun run_lines :: "ctx \<Rightarrow> pydict \<Rightarrow> string list \<Rightarrow> pydict \<Rightarrow> trace \<Rightarrow> pydict flow \<times> trace" where
  "run_lines cx params [] task_env tr = (Continue task_env, tr)"
| "run_lines cx params (ln # lns) task_env tr =
     (let stripped = py_strip ln in
      if startswith stripped ''env '' then
        (case shlex_split stripped of
           Inl e \<Rightarrow> (Raise e, tr)
         | Inr toks \<Rightarrow> run_lines cx params lns (env_assign (environ cx) params (drop 1 toks) task_env) tr)
      else
        (case exec_line_fabric cx ln params task_env tr of
           (Inl e, tr1) \<Rightarrow> (Return 1, tr1)
         | (Inr rc, tr1) \<Rightarrow> if rc \<noteq> 0 then (Return rc, tr1) else run_lines cx params lns task_env tr1))"

text \<open>A selected task: its name, its lines and the parameters of the invocation.\<close>

type_synonym selected = "(string \<times> string list \<times> pydict) list"

fun run_tasks :: "ctx \<Rightarrow> selected \<Rightarrow> trace \<Rightarrow> unit flow \<times> trace" where
  "run_tasks cx [] tr = (Continue (), tr)"
| "run_tasks cx ((tname, lns, params) # sel) tr =
     (case run_lines cx params lns [] tr of
        (Continue task_env, tr1) \<Rightarrow> run_tasks cx sel tr1
      | (Return rc, tr1) \<Rightarrow> (Return rc, tr1)
      | (Raise e, tr1) \<Rightarrow> (Raise e, tr1))"

text \<open>The options of the command line that \<open>run_host\<close> reads.\<close>

record options =
  opt_user :: "string option"
  opt_port :: "string option"
  opt_sudo :: bool
  opt_sudo_user :: "string option"

text \<open>The context of the executor on a target, and the opening of its session (none for
  the local target).\<close>

definition host_ctx :: "world \<Rightarrow> (string \<rightharpoonup> string) \<Rightarrow> options \<Rightarrow> target \<Rightarrow> ctx" where
  "host_ctx w env0 opts spec =
     \<lparr>the_world = w, environ = env0, connection = c_for spec,
      sudo = opt_sudo opts, sudo_user = opt_sudo_user opts\<rparr>"

definition open_session :: "world \<Rightarrow> target \<Rightarrow> (exn + int) \<times> trace" where
  "open_session w spec = (if c_for spec \<noteq> None then ask w SessionOpen [] else (Inr 0, []))"

text \<open>\<open>run_host\<close>: the result of the worker (an exit code, or the exception that leaves
  it) and the trace of the target.\<close>

definition run_host ::
  "world \<Rightarrow> (string \<rightharpoonup> string) \<Rightarrow> options \<Rightarrow> selected \<Rightarrow> string \<Rightarrow> (exn + int) \<times> trace" where
  "run_host w env0 opts sel hspec =
     (case parse_host hspec (opt_user opts) (opt_port opts) of
        Inl e \<Rightarrow> (Inl e, [])
      | Inr spec \<Rightarrow>
          (case open_session w spec of
             (Inl e, tr0) \<Rightarrow> (Inr 1, tr0)
           | (Inr opened, tr0) \<Rightarrow>
               (case run_tasks (host_ctx w env0 opts spec) sel tr0 of
                  (Return rc, tr1) \<Rightarrow> (Inr rc, tr1)
                | (Raise e, tr1) \<Rightarrow> (Inl e, tr1)
                | (Continue u, tr1) \<Rightarrow>
                    if c_for spec \<noteq> None
                    then and_then (ask w SessionClose tr1) (\<lambda>closed tr2. (Inr 0, tr2))
                    else (Inr 0, tr1))))"

text \<open>The loop of \<open>main\<close> over the finished futures: \<open>rc_total = rc_total or rc\<close>, where
  an exception of \<open>fut.result()\<close> counts as 1.\<close>

definition result_rc :: "exn + int \<Rightarrow> int" where
  "result_rc r = (case r of Inl e \<Rightarrow> 1 | Inr rc \<Rightarrow> rc)"

fun aggregate :: "int \<Rightarrow> (exn + int) list \<Rightarrow> int" where
  "aggregate rc_total [] = rc_total"
| "aggregate rc_total (r # rs) = aggregate (if rc_total \<noteq> 0 then rc_total else result_rc r) rs"

text \<open>
  The dispatcher: \<open>main\<close> from the resolution of the hosts on, for the task sequence
  already selected. \<open>ThreadPoolExecutor\<close> refuses a pool of no worker with a
  \<open>ValueError\<close>, which nothing catches. Each target has its own oracle and its own
  trace; \<open>as_completed\<close> gives the order in which the workers finish, any order of the
  targets.
\<close>

definition dispatch ::
  "(string \<Rightarrow> world) \<Rightarrow> (string \<rightharpoonup> string) \<Rightarrow> (string list \<Rightarrow> string list) \<Rightarrow> options \<Rightarrow> selected
     \<Rightarrow> string list \<Rightarrow> exn + int" where
  "dispatch worlds env0 as_completed opts sel merged_hosts =
     (if min 32 (length merged_hosts) \<le> 0 then Inl (ValueError ''max_workers must be greater than 0'')
      else Inr (aggregate 0
                  (map (\<lambda>h. fst (run_host (worlds h) env0 opts sel h)) (as_completed merged_hosts))))"

definition main_run ::
  "(string \<Rightarrow> world) \<Rightarrow> (string \<rightharpoonup> string) \<Rightarrow> (string list \<Rightarrow> string list) \<Rightarrow> options \<Rightarrow> selected
     \<Rightarrow> string list \<Rightarrow> string list \<Rightarrow> exn + int" where
  "main_run worlds env0 as_completed opts sel env_names host_specs =
     dispatch worlds env0 as_completed opts sel (resolve_hosts env_names host_specs)"


section \<open>The grammar-based interpreter (pf\_parser.py)\<close>

text \<open>\<open>_substitute_vars\<close>: for each variable of \<open>env\<close> in order, the braced form is
  replaced in the result so far, then the bare form.\<close>

fun substitute_vars :: "string \<Rightarrow> pydict \<Rightarrow> string" where
  "substitute_vars text [] = text"
| "substitute_vars text ((var_name, var_value) # env) =
     substitute_vars
       (replace_all (''$'' @ var_name) var_value
          (replace_all (''${'' @ var_name @ ''}'') var_value text))
       env"

text \<open>The values of the option dictionary of a sync statement: a string, a list of
  strings, the flag \<open>True\<close>, and an integer (the port of the specification's example).\<close>

datatype optval = VStr string | VList "string list" | VTrue | VInt int

definition py_truth :: "optval option \<Rightarrow> bool" where
  "py_truth v =
     (case v of
        None \<Rightarrow> False
      | Some (VStr s) \<Rightarrow> s \<noteq> []
      | Some (VList xs) \<Rightarrow> xs \<noteq> []
      | Some VTrue \<Rightarrow> True
      | Some (VInt n) \<Rightarrow> n \<noteq> 0)"

text \<open>\<open>repr\<close> of a string and \<open>str\<close> of a value, as an f-string renders it.\<close>

definition hex_digit :: "nat \<Rightarrow> char" where
  "hex_digit d = (if d < 10 then char_of (48 + d) else char_of (87 + d))"

definition repr_char :: "char \<Rightarrow> char \<Rightarrow> string" where
  "repr_char q c =
     (let n = (of_char c :: nat) in
      if c = q \<or> c = CHR 0x5C then [CHR 0x5C, c]
      else if c = CHR 0x09 then [CHR 0x5C, CHR ''t'']
      else if c = CHR 0x0A then [CHR 0x5C, CHR ''n'']
      else if c = CHR 0x0D then [CHR 0x5C, CHR ''r'']
      else if n < 32 \<or> (127 \<le> n \<and> n \<le> 160) \<or> n = 173
        then [CHR 0x5C, CHR ''x'', hex_digit (n div 16), hex_digit (n mod 16)]
      else [c])"

definition py_repr :: "string \<Rightarrow> string" where
  "py_repr s =
     (let q = (if CHR 0x27 \<in> set s \<and> CHR 0x22 \<notin> set s then CHR 0x22 else CHR 0x27)
      in [q] @ concat (map (repr_char q) s) @ [q])"

definition py_str :: "optval \<Rightarrow> string" where
  "py_str v =
     (case v of
        VStr s \<Rightarrow> s
      | VList xs \<Rightarrow> ''['' @ join_with '', '' (map py_repr xs) @ '']''
      | VTrue \<Rightarrow> ''True''
      | VInt n \<Rightarrow> show_int n)"

text \<open>The inner function \<open>sub(v)\<close>: with an empty \<open>env\<close> the loop of
  \<open>_substitute_vars\<close> does not run and the value comes back whatever it is; otherwise a
  value that is not a string has no \<open>replace\<close>.\<close>

definition sub_val :: "pydict \<Rightarrow> optval \<Rightarrow> exn + optval" where
  "sub_val env v =
     (if env = [] then Inr v
      else case v of VStr s \<Rightarrow> Inr (VStr (substitute_vars s env)) | _ \<Rightarrow> Inl AttributeError)"

text \<open>\<open>shlex.quote\<close> of a value that passed the truth test or came from \<open>sub\<close>: a value
  that is no string and not false is refused by the regular expression search.\<close>

definition quote_val :: "optval \<Rightarrow> exn + string" where
  "quote_val v =
     (case v of
        VStr s \<Rightarrow> Inr (shlex_quote s)
      | _ \<Rightarrow> if py_truth (Some v) then Inl TypeError else Inr [CHR 0x27, CHR 0x27])"

text \<open>\<open>int(port)\<close> for a port that passed the truth test.\<close>

definition int_val :: "optval \<Rightarrow> exn + int" where
  "int_val v =
     (case v of
        VInt n \<Rightarrow> Inr n
      | VTrue \<Rightarrow> Inr 1
      | VStr s \<Rightarrow> (case py_int s of None \<Rightarrow> Inl (ValueError ''invalid literal for int()'') | Some n \<Rightarrow> Inr n)
      | VList xs \<Rightarrow> Inl TypeError)"

text \<open>The \<open>--exclude\<close> arguments: one pair for each element the loop
  \<open>for pat in excludes\<close> meets.\<close>

definition exclude_args :: "pydict \<Rightarrow> optval option \<Rightarrow> exn + string list" where
  "exclude_args env v =
     (if \<not> py_truth v then Inr []
      else case the v of
             VList xs \<Rightarrow> Inr (concat (map (\<lambda>x. [''--exclude'', substitute_vars x env]) xs))
           | VStr s \<Rightarrow> Inr (concat (map (\<lambda>c. [''--exclude'', [c]]) s))
           | _ \<Rightarrow> Inl TypeError)"

text \<open>What \<open>_execute_sync\<close> did when it returns: nothing, because \<open>rsync\<close> is not on the
  path, or the call of \<open>os.system\<close>. \<open>Synced cmd printable\<close> holds the local list
  \<open>cmd\<close> and the command line \<open>printable\<close>, the list joined by spaces; only the line
  is handed to \<open>os.system\<close>, which gives it to the shell.\<close>

datatype sync_outcome = RsyncMissing | Synced "string list" string

definition bind_exn :: "exn + 'a \<Rightarrow> ('a \<Rightarrow> exn + 'b) \<Rightarrow> exn + 'b" where
  "bind_exn r f = (case r of Inl e \<Rightarrow> Inl e | Inr a \<Rightarrow> f a)"

definition execute_sync :: "bool \<Rightarrow> (string \<rightharpoonup> optval) \<Rightarrow> pydict \<Rightarrow> exn + sync_outcome" where
  "execute_sync rsync_on_path opts env =
     (if \<not> rsync_on_path then Inr RsyncMissing
      else if \<not> py_truth (opts ''src'') \<or> \<not> py_truth (opts ''dest'')
        then Inl (ValueError ''sync requires src and dest'')
      else
        bind_exn (sub_val env (the (opts ''src''))) (\<lambda>src.
        bind_exn (sub_val env (the (opts ''dest''))) (\<lambda>dest_path.
        bind_exn (case opts ''port'' of
                    Some (VStr p) \<Rightarrow>
                      if py_isdigit p
                      then (case py_int p of None \<Rightarrow> Inl (ValueError ''invalid literal for int()'')
                                           | Some n \<Rightarrow> Inr (Some (VInt n)))
                      else Inr (Some (VStr p))
                  | other \<Rightarrow> Inr other) (\<lambda>port.
        bind_exn (exclude_args env (opts ''excludes'')) (\<lambda>excl.
        (let exclude_file = (case opts ''exclude_file'' of
                               Some (VStr f) \<Rightarrow> Some (VStr (substitute_vars f env))
                             | other \<Rightarrow> other);
             delete = py_truth (opts ''delete'');
             dry = py_truth (opts ''dry'');
             verbose = (case opts ''verbose'' of None \<Rightarrow> True | Some v \<Rightarrow> py_truth (Some v));
             cmd1 = [''rsync'', ''-a'']
                    @ (if verbose then [''-v''] else [])
                    @ (if dry then [''-n''] else [])
                    @ (if delete then [''--delete''] else [])
                    @ excl
         in
        bind_exn (if py_truth (opts ''host'') then
                    bind_exn (if py_truth port then
                                bind_exn (int_val (the port)) (\<lambda>n. Inr (''ssh -p '' @ show_int n))
                              else Inr ''ssh'') (\<lambda>ssh_cmd.
                    (let host = the (opts ''host'');
                         prefix = (if py_truth (opts ''user'')
                                   then py_str (the (opts ''user'')) @ ''@'' @ py_str host
                                   else py_str host)
                     in Inr ([''-e'', ssh_cmd], VStr (prefix @ '':'' @ py_str dest_path))))
                  else Inr ([], dest_path)) (\<lambda>(transport, dest_spec).
        bind_exn (quote_val src) (\<lambda>qsrc.
        bind_exn (quote_val dest_spec) (\<lambda>qdest.
        (let file_args = (if py_truth exclude_file
                          then (case the exclude_file of VStr f \<Rightarrow> Some [''--exclude-from'', f] | _ \<Rightarrow> None)
                          else Some [])
         in case file_args of
              None \<Rightarrow> Inl TypeError
            | Some fa \<Rightarrow>
                (let cmd = cmd1 @ fa @ transport @ [qsrc, qdest]
                 in Inr (Synced cmd (join_with '' '' cmd)))))))))))))"


section \<open>Worlds and inputs of the examples\<close>

text \<open>A world where every file operation and session call succeeds and every command
  exits with status 1, and one where only the command \<open>false\<close> does.\<close>

definition commands_fail :: world where
  "commands_fail tr rq =
     (case rq of RunLocal cmd overlay \<Rightarrow> Some 1 | RunRemote cmd \<Rightarrow> Some 1 | _ \<Rightarrow> Some 0)"

definition only_false_fails :: world where
  "only_false_fails tr rq =
     (case rq of
        RunLocal cmd overlay \<Rightarrow> Some (if cmd = ''false'' then 1 else 0)
      | RunRemote cmd \<Rightarrow> Some (if cmd = ''false'' then 1 else 0)
      | _ \<Rightarrow> Some 0)"

definition no_options :: options where
  "no_options = \<lparr>opt_user = None, opt_port = None, opt_sudo = False, opt_sudo_user = None\<rparr>"

text \<open>A later state of the same load: the visited set has grown, and the reads made
  since are distinct paths that were not visited before and are visited now.\<close>

definition extends :: "xstate \<Rightarrow> xstate \<Rightarrow> bool" where
  "extends st st' =
     (let new = drop (length (reads st)) (reads st') in
      visited st \<subseteq> visited st' \<and> take (length (reads st)) (reads st') = reads st \<and>
      distinct new \<and> set new \<inter> visited st = {} \<and> set new \<subseteq> visited st')"

text \<open>Two task files that include each other; the first also includes a file that does
  not exist.\<close>

definition cyclic_fs :: fsys where
  "cyclic_fs =
     [(''/r/a.pf'', Text (''include b.pf'' @ [CHR 0x0A] @ ''task t'' @ [CHR 0x0A] @ ''  include b.pf'' @ [CHR 0x0A]
                          @ ''end'' @ [CHR 0x0A] @ ''include nope.pf'' @ [CHR 0x0A])),
      (''/r/b.pf'', Text (''include a.pf'' @ [CHR 0x0A] @ ''include ./sub/../b.pf'' @ [CHR 0x0A] @ ''# shared''))]"

text \<open>The argument vector the synchronization tool is started with: the words into which
  the shell splits the command line handed to \<open>os.system\<close>, read here with the POSIX
  rules of \<open>shlex.split\<close> (quotes, backslashes, white space); none when no command was
  run.\<close>

definition sync_words :: "exn + sync_outcome \<Rightarrow> string list option" where
  "sync_words r =
     (case r of
        Inr (Synced cmd printable) \<Rightarrow>
          (case shlex_split printable of Inr ws \<Rightarrow> Some ws | Inl e \<Rightarrow> None)
      | _ \<Rightarrow> None)"

text \<open>The sync options of the specification's example, for a given value of the port.\<close>

definition sync_example :: "optval \<Rightarrow> (string \<rightharpoonup> optval)" where
  "sync_example port =
     map_of [(''src'', VStr ''a/''), (''dest'', VStr ''b/''), (''host'', VStr ''h''),
             (''user'', VStr ''u''), (''port'', port), (''delete'', VTrue)]"

definition local_ctx :: "world \<Rightarrow> ctx" where
  "local_ctx w = \<lparr>the_world = w, environ = Map.empty, connection = None, sudo = False, sudo_user = None\<rparr>"


section \<open>Properties of interpolation\<close>

lemma not_word_punct [simp]:
  "\<not> is_word (CHR ''$'')" "\<not> is_word (CHR ''{'')" "\<not> is_word (CHR ''}'')"
  by (simp_all add: is_word_def)

lemma takeWhile_stop: "\<not> P y \<Longrightarrow> takeWhile P (xs @ y # ys) = takeWhile P xs"
  by (induction xs) auto

lemma dropWhile_stop: "\<not> P y \<Longrightarrow> dropWhile P (xs @ y # ys) = dropWhile P xs @ y # ys"
  by (induction xs) auto

lemma takeWhile_all: "list_all P xs \<Longrightarrow> \<not> P y \<Longrightarrow> takeWhile P (xs @ y # ys) = xs"
  by (induction xs) auto

lemma dropWhile_all: "list_all P xs \<Longrightarrow> \<not> P y \<Longrightarrow> dropWhile P (xs @ y # ys) = y # ys"
  by (induction xs) auto

text \<open>The four ways the scan treats one position.\<close>

lemma var_sub_plain: "c \<noteq> CHR ''$'' \<Longrightarrow> var_sub m (c # cs) = c # var_sub m cs"
  by simp

lemma var_sub_name:
  "takeWhile is_word cs \<noteq> [] \<Longrightarrow>
   var_sub m (CHR ''$'' # cs) =
     repl m (takeWhile is_word cs) (CHR ''$'' # takeWhile is_word cs) @ var_sub m (dropWhile is_word cs)"
  by (simp add: Let_def)

lemma var_sub_braced:
  "takeWhile is_word bs \<noteq> [] \<Longrightarrow> startswith (dropWhile is_word bs) ''}'' \<Longrightarrow>
   var_sub m (CHR ''$'' # CHR ''{'' # bs) =
     repl m (takeWhile is_word bs) (''${'' @ takeWhile is_word bs @ ''}'')
       @ var_sub m (drop 1 (dropWhile is_word bs))"
  by (simp add: Let_def)

lemma var_sub_nomatch:
  "takeWhile is_word cs = [] \<Longrightarrow>
   \<not> (\<exists>bs. cs = CHR ''{'' # bs \<and> takeWhile is_word bs \<noteq> [] \<and> startswith (dropWhile is_word bs) ''}'') \<Longrightarrow>
   var_sub m (CHR ''$'' # cs) = CHR ''$'' # var_sub m cs"
  by (cases cs) (auto simp: Let_def)

declare var_sub.simps(2) [simp del]

text \<open>A braced reference, and a bare reference that ends where the name ends, are
  replaced by the value looked up, as it is; the scan goes on behind the reference.\<close>

lemma var_sub_brace:
  assumes "name \<noteq> []" "list_all is_word name"
  shows "var_sub m (''${'' @ name @ ''}'' @ post) = repl m name (''${'' @ name @ ''}'') @ var_sub m post"
proof -
  have t: "takeWhile is_word (name @ CHR ''}'' # post) = name"
    and d: "dropWhile is_word (name @ CHR ''}'' # post) = CHR ''}'' # post"
    using assms by (simp_all add: takeWhile_all dropWhile_all)
  show ?thesis
    using var_sub_braced [of "name @ CHR ''}'' # post" m] assms
    by (simp add: t d startswith_def)
qed

lemma var_sub_bare:
  assumes "name \<noteq> []" "list_all is_word name" "post = [] \<or> \<not> is_word (hd post)"
  shows "var_sub m (''$'' @ name @ post) = repl m name (''$'' @ name) @ var_sub m post"
proof -
  have "takeWhile is_word (name @ post) = name \<and> dropWhile is_word (name @ post) = post"
  proof (cases post)
    case Nil
    with assms show ?thesis by (simp add: list_all_iff)
  next
    case (Cons y ys)
    with assms show ?thesis by (simp add: takeWhile_all dropWhile_all)
  qed
  then show ?thesis
    using var_sub_name [of "name @ post" m] assms by simp
qed

text \<open>No match that starts before a dollar sign reaches it: the text before and the
  text from the dollar sign on are substituted independently.\<close>

lemma var_sub_before_dollar:
  "var_sub m (pre @ CHR ''$'' # rest) = var_sub m pre @ var_sub m (CHR ''$'' # rest)"
proof (induction m pre rule: var_sub.induct)
  case (1 merged)
  show ?case by simp
next
  case (2 merged c cs)
  show ?case
  proof (cases "c = CHR ''$''")
    case False
    with 2 show ?thesis by (simp add: var_sub_plain)
  next
    case dollar: True
    show ?thesis
    proof (cases "takeWhile is_word cs = []")
      case False
      then have "takeWhile is_word (cs @ CHR ''$'' # rest) \<noteq> []"
        by (simp add: takeWhile_stop)
      with 2(1) [OF dollar refl False] False dollar show ?thesis
        by (simp add: var_sub_name takeWhile_stop dropWhile_stop)
    next
      case noname: True
      have noname': "takeWhile is_word (cs @ CHR ''$'' # rest) = []"
        using noname by (simp add: takeWhile_stop)
      show ?thesis
      proof (cases "\<exists>bs. cs = CHR ''{'' # bs \<and> takeWhile is_word bs \<noteq> [] \<and> startswith (dropWhile is_word bs) ''}''")
        case True
        then obtain bs where bs: "cs = CHR ''{'' # bs" "takeWhile is_word bs \<noteq> []"
          "startswith (dropWhile is_word bs) ''}''" by blast
        from bs(3) obtain r where r: "dropWhile is_word bs = CHR ''}'' # r"
          by (cases "dropWhile is_word bs") (auto simp: startswith_def)
        have ih: "var_sub merged (drop 1 (dropWhile is_word bs) @ CHR ''$'' # rest) =
                  var_sub merged (drop 1 (dropWhile is_word bs)) @ var_sub merged (CHR ''$'' # rest)"
          using 2(2) [OF dollar refl _ bs(1) refl refl] noname bs by simp
        have "var_sub merged (CHR ''$'' # CHR ''{'' # (bs @ CHR ''$'' # rest)) =
              repl merged (takeWhile is_word bs) (''${'' @ takeWhile is_word bs @ ''}'')
                @ var_sub merged (drop 1 (dropWhile is_word bs) @ CHR ''$'' # rest)"
          using var_sub_braced [of "bs @ CHR ''$'' # rest" merged] bs r
          by (simp add: takeWhile_stop dropWhile_stop startswith_def)
        then show ?thesis
          using ih bs dollar by (simp add: var_sub_braced)
      next
        case nobrace: False
        have nobrace': "\<not> (\<exists>bs. cs @ CHR ''$'' # rest = CHR ''{'' # bs \<and> takeWhile is_word bs \<noteq> []
                         \<and> startswith (dropWhile is_word bs) ''}'')"
        proof
          assume "\<exists>bs. cs @ CHR ''$'' # rest = CHR ''{'' # bs \<and> takeWhile is_word bs \<noteq> []
                         \<and> startswith (dropWhile is_word bs) ''}''"
          then obtain bs where bs: "cs @ CHR ''$'' # rest = CHR ''{'' # bs" "takeWhile is_word bs \<noteq> []"
            "startswith (dropWhile is_word bs) ''}''" by blast
          from bs(1) obtain bs' where bs': "cs = CHR ''{'' # bs'" "bs = bs' @ CHR ''$'' # rest"
            by (cases cs) auto
          have "takeWhile is_word bs' \<noteq> []" using bs(2) bs'(2) by (simp add: takeWhile_stop)
          moreover have "startswith (dropWhile is_word bs') ''}''"
            using bs(3) bs'(2) by (cases "dropWhile is_word bs'") (auto simp: dropWhile_stop startswith_def)
          ultimately show False using nobrace bs'(1) by blast
        qed
        have ih: "var_sub merged (cs @ CHR ''$'' # rest) = var_sub merged cs @ var_sub merged (CHR ''$'' # rest)"
        proof (cases cs)
          case Nil
          then show ?thesis by simp
        next
          case (Cons b bs)
          show ?thesis
            using 2(3) [OF dollar refl _ Cons refl refl] noname nobrace Cons by auto
        qed
        show ?thesis
          using var_sub_nomatch [OF noname' nobrace'] var_sub_nomatch [OF noname nobrace] ih dollar
          by simp
      qed
    qed
  qed
qed

lemma merged_scope_params:
  "map_of params k = Some pv \<Longrightarrow> merged_scope env0 params extra_env k = Some pv"
  by (simp add: merged_scope_def map_add_Some_iff)

text \<open>
  Claim C1, as the code has it. For a variable bound both in the parameters of the
  invocation and in the task-local environment, a use of the variable (braced anywhere,
  or bare where no word character follows the name) is replaced by the value of the
  parameter: \<open>merged\<close> is updated with the parameters last, so the parameter layer is
  the innermost one for interpolation.
\<close>

theorem interpolate_prefers_params:
  assumes "map_of params k = Some pv" and "map_of task_env k = Some ev"
    and "k \<noteq> []" and "list_all is_word k"
  shows "interpolate env0 (pre @ ''${'' @ k @ ''}'' @ post) params task_env
           = interpolate env0 pre params task_env @ pv @ interpolate env0 post params task_env
       \<and> ((post = [] \<or> \<not> is_word (hd post)) \<longrightarrow>
          interpolate env0 (pre @ ''$'' @ k @ post) params task_env
           = interpolate env0 pre params task_env @ pv @ interpolate env0 post params task_env)"
proof -
  let ?m = "merged_scope env0 params task_env"
  have r: "repl ?m k w = pv" for w
    using merged_scope_params [OF assms(1)] by (simp add: repl_def)
  have "var_sub ?m (pre @ CHR ''$'' # (''{'' @ k @ ''}'' @ post)) = var_sub ?m pre @ pv @ var_sub ?m post"
    using var_sub_before_dollar [of ?m pre "''{'' @ k @ ''}'' @ post"]
      var_sub_brace [OF assms(3,4), of ?m post] r by simp
  moreover have "var_sub ?m (pre @ CHR ''$'' # (k @ post)) = var_sub ?m pre @ pv @ var_sub ?m post"
    if "post = [] \<or> \<not> is_word (hd post)"
    using var_sub_before_dollar [of ?m pre "k @ post"]
      var_sub_bare [OF assms(3,4) that, of ?m] r by simp
  ultimately show ?thesis by (simp add: interpolate_def)
qed

text \<open>Witness for C1 as amended: the parameter \<open>port=9443\<close> against the task-local
  \<open>port=80\<close>.\<close>

theorem interpolate_prefers_params_witness:
  "interpolate Map.empty ''echo ${port}/x'' [(''port'', ''9443'')] [(''port'', ''80'')] = ''echo 9443/x''
   \<and> interpolate Map.empty ''echo $port/x'' [(''port'', ''9443'')] [(''port'', ''80'')] = ''echo 9443/x''"
proof -
  have 1: "map_of [(''port'', ''9443'')] ''port'' = Some ''9443''" by simp
  have 2: "map_of [(''port'', ''80'')] ''port'' = Some ''80''" by simp
  have 3: "''port'' \<noteq> []" by simp
  have 4: "list_all is_word ''port''" by (simp add: is_word_def)
  have 5: "''/x'' = [] \<or> \<not> is_word (hd ''/x'')" by (simp add: is_word_def)
  have pre: "interpolate Map.empty ''echo '' [(''port'', ''9443'')] [(''port'', ''80'')] = ''echo ''"
    by (simp add: interpolate_def var_sub_plain)
  have post: "interpolate Map.empty ''/x'' [(''port'', ''9443'')] [(''port'', ''80'')] = ''/x''"
    by (simp add: interpolate_def var_sub_plain)
  show ?thesis
    using interpolate_prefers_params [OF 1 2 3 4, of Map.empty "''echo ''" "''/x''"] 5 pre post
    by simp
qed

text \<open>Claim C1 as stated fails: with \<open>port\<close> bound to 9443 in the parameters and to 80
  in the task-local environment, \<open>$port\<close> does not interpolate to the task-local 80.\<close>

theorem task_env_shadowing_counterexample:
  "map_of [(''port'', ''9443'')] ''port'' = Some ''9443''
   \<and> map_of [(''port'', ''80'')] ''port'' = Some ''80''
   \<and> interpolate Map.empty ''$port'' [(''port'', ''9443'')] [(''port'', ''80'')] \<noteq> ''80''"
  by (simp add: interpolate_def merged_scope_def repl_def is_word_def var_sub_name)

text \<open>The scan of \<open>_interpolate\<close> is a single pass: whatever the value of a variable
  holds, a dollar sign included, it stands in the result as it is.\<close>

lemma interpolate_value_verbatim:
  assumes "merged_scope env0 params task_env k = Some v" and "k \<noteq> []" and "list_all is_word k"
  shows "interpolate env0 (pre @ ''${'' @ k @ ''}'' @ post) params task_env
           = interpolate env0 pre params task_env @ v @ interpolate env0 post params task_env"
proof -
  let ?m = "merged_scope env0 params task_env"
  have "var_sub ?m (pre @ CHR ''$'' # (''{'' @ k @ ''}'' @ post)) = var_sub ?m pre @ v @ var_sub ?m post"
    using var_sub_before_dollar [of ?m pre "''{'' @ k @ ''}'' @ post"]
      var_sub_brace [OF assms(2,3), of ?m post] assms(1) by (simp add: repl_def)
  then show ?thesis by (simp add: interpolate_def)
qed

text \<open>
  Claim C5 on \<open>_substitute_vars\<close> of pf\_parser.py: the value \<open>$b\<close> substituted for
  \<open>${a}\<close> is scanned again when the loop reaches the variable \<open>b\<close>, and the token
  does not stand in the output; \<open>_interpolate\<close> of pf.py leaves it as it is on the same
  input.
\<close>

theorem substitute_vars_rescans_value:
  "substitute_vars ''${a}'' [(''a'', ''$b''), (''b'', ''X'')] = ''X''
   \<and> interpolate Map.empty ''${a}'' [(''a'', ''$b''), (''b'', ''X'')] [] = ''$b''"
  by code_simp


section \<open>Properties of the task runner and the dispatcher\<close>

text \<open>
  Claim C2 on the \<open>copy\<close> verb. On the local target, with a \<open>chmod\<close> that exits with
  status 1, the executor returns 0: the status of the follow-up step is not read. The
  \<open>directory\<close> verb returns the status of its failing step.
\<close>

theorem copy_swallows_chmod_status:
  "exec_line_fabric (local_ctx commands_fail) ''copy a /tmp/b mode=0644'' [] [] []
     = (Inr 0, [(MakeDirs ''/tmp'', Some 0), (CopyFile ''a'' ''/tmp/b'', Some 0),
                (RunLocal ''chmod 0644 /tmp/b'' [], Some 1)])
   \<and> exec_line_fabric (local_ctx commands_fail) ''directory /tmp/b mode=0755'' [] [] []
     = (Inr 1, [(RunLocal ''mkdir -p /tmp/b'' [], Some 1)])"
  by code_simp

text \<open>On a target whose session opened, a return from inside the loop and an exception
  that leaves it end the trace of the target where the task run ended: no request
  follows.\<close>

lemma run_host_failure_paths:
  assumes "parse_host hspec (opt_user opts) (opt_port opts) = Inr spec"
    and "open_session w spec = (Inr opened, tr0)"
  shows "run_tasks (host_ctx w env0 opts spec) sel tr0 = (Return rc, tr1) \<Longrightarrow>
           run_host w env0 opts sel hspec = (Inr rc, tr1)"
    and "run_tasks (host_ctx w env0 opts spec) sel tr0 = (Raise e, tr1) \<Longrightarrow>
           run_host w env0 opts sel hspec = (Inl e, tr1)"
  using assms by (simp_all add: run_host_def)

text \<open>
  Claim C3 on a remote target whose session opened. When a statement returns a
  non-zero exit code, and when the executor raises an exception (an unknown verb), the
  function returns from inside the loop and the trace of the target holds no close of
  the session; when every statement succeeds the session is closed once.
\<close>

theorem session_left_open_on_failure:
  "run_host commands_fail Map.empty no_options [(''t'', [''shell false''], [])] ''u@h:22''
     = (Inr 1, [(SessionOpen, Some 0), (RunRemote ''false'', Some 1)])
   \<and> run_host commands_fail Map.empty no_options [(''t'', [''frobnicate''], [])] ''u@h:22''
     = (Inr 1, [(SessionOpen, Some 0)])
   \<and> run_host only_false_fails Map.empty no_options [(''t'', [''shell true''], [])] ''u@h:22''
     = (Inr 0, [(SessionOpen, Some 0), (RunRemote ''true'', Some 0), (SessionClose, Some 0)])"
  by code_simp

lemma run_lines_append:
  "run_lines cx params pre env0 tr0 = (Continue env1, tr1) \<Longrightarrow>
   run_lines cx params (pre @ rest) env0 tr0 = run_lines cx params rest env1 tr1"
proof (induction pre arbitrary: env0 tr0)
  case Nil
  then show ?case by simp
next
  case (Cons ln lns)
  then show ?case
    by (auto simp: Let_def split: if_splits sum.splits prod.splits)
qed

lemma run_lines_fail_fast:
  assumes "\<not> startswith (py_strip s2) ''env ''"
    and "exec_line_fabric cx s2 params env1 tr1 = (Inr rc, tr2)" and "rc \<noteq> 0"
  shows "run_lines cx params (s2 # post) env1 tr1 = (Return rc, tr2)"
  using assms by (simp add: Let_def)

lemma run_tasks_append:
  "run_tasks cx earlier tr0 = (Continue u, tr1) \<Longrightarrow>
   run_tasks cx (earlier @ rest) tr0 = run_tasks cx rest tr1"
proof (induction earlier arbitrary: tr0)
  case Nil
  then show ?case by simp
next
  case (Cons t ts)
  obtain tname lns params where t: "t = (tname, lns, params)" by (cases t) auto
  from Cons show ?case unfolding t
    by (auto split: prod.splits flow.splits)
qed

text \<open>
  Claim C4. On a target whose session opened (or the local one), when the tasks
  selected earlier ran to their end, the statements \<open>pre\<close> of a task succeeded, and the
  next statement \<open>s2\<close> of that task comes back from the executor with an exit code
  \<open>rc\<close> that is not zero, then the result of the target is \<open>rc\<close> and the trace of the
  target is the trace at the return of \<open>s2\<close>: whatever statements \<open>post\<close> follow in that
  task and whatever tasks \<open>later\<close> were selected after it, none of them makes a request.
\<close>

theorem fail_fast_on_target:
  assumes "parse_host hspec (opt_user opts) (opt_port opts) = Inr spec"
    and "open_session w spec = (Inr opened, tr0)"
    and "run_tasks (host_ctx w env0 opts spec) earlier tr0 = (Continue (), tr1)"
    and "run_lines (host_ctx w env0 opts spec) params pre [] tr1 = (Continue env1, tr2)"
    and "\<not> startswith (py_strip s2) ''env ''"
    and "exec_line_fabric (host_ctx w env0 opts spec) s2 params env1 tr2 = (Inr rc, tr3)"
    and "rc \<noteq> 0"
  shows "run_host w env0 opts (earlier @ (tname, pre @ s2 # post, params) # later) hspec = (Inr rc, tr3)"
proof -
  let ?cx = "host_ctx w env0 opts spec"
  have "run_lines ?cx params (pre @ s2 # post) [] tr1 = (Return rc, tr3)"
    using run_lines_append [OF assms(4)] run_lines_fail_fast [OF assms(5,6,7)] by simp
  then have "run_tasks ?cx ((tname, pre @ s2 # post, params) # later) tr1 = (Return rc, tr3)"
    by simp
  then have "run_tasks ?cx (earlier @ (tname, pre @ s2 # post, params) # later) tr0 = (Return rc, tr3)"
    using run_tasks_append [OF assms(3)] by simp
  then show ?thesis
    using assms(1,2) by (simp add: run_host_def)
qed

text \<open>Witness for C4: \<open>shell true\<close>, then \<open>shell false\<close>, then a statement and a task
  that never run.\<close>

theorem fail_fast_on_target_witness:
  "run_host only_false_fails Map.empty no_options
     [(''build'', [''env A=1'', ''shell true'', ''shell false'', ''shell echo never''], []),
      (''deploy'', [''shell echo later''], [])] ''@local''
   = (Inr 1, [(RunLocal ''true'' [(''A'', ''1'')], Some 0), (RunLocal ''false'' [(''A'', ''1'')], Some 1)])"
proof -
  let ?cx = "host_ctx only_false_fails Map.empty no_options Local"
  have 1: "parse_host ''@local'' (opt_user no_options) (opt_port no_options) = Inr Local"
    by code_simp
  have 2: "open_session only_false_fails Local = (Inr 0, [])"
    by code_simp
  have 3: "run_tasks ?cx [] [] = (Continue (), [])"
    by simp
  have 4: "run_lines ?cx [] [''env A=1'', ''shell true''] [] []
            = (Continue [(''A'', ''1'')], [(RunLocal ''true'' [(''A'', ''1'')], Some 0)])"
    by code_simp
  have 5: "\<not> startswith (py_strip ''shell false'') ''env ''"
    by code_simp
  have 6: "exec_line_fabric ?cx ''shell false'' [] [(''A'', ''1'')] [(RunLocal ''true'' [(''A'', ''1'')], Some 0)]
            = (Inr 1, [(RunLocal ''true'' [(''A'', ''1'')], Some 0), (RunLocal ''false'' [(''A'', ''1'')], Some 1)])"
    by code_simp
  have 7: "(1::int) \<noteq> 0" by simp
  show ?thesis
    using fail_fast_on_target [OF 1 2 3 4 5 6 7, of "''build''" "[''shell echo never'']"
        "[(''deploy'', [''shell echo later''], [])]"]
    by simp
qed

lemma aggregate_zero_iff:
  "aggregate rc_total rs = 0 \<longleftrightarrow> rc_total = 0 \<and> (\<forall>r\<in>set rs. result_rc r = 0)"
  by (induction rs arbitrary: rc_total) auto

lemma result_rc_zero_iff: "result_rc r = 0 \<longleftrightarrow> r = Inr 0"
  by (cases r) (auto simp: result_rc_def)

lemma resolve_hosts_not_empty: "resolve_hosts env_names host_specs \<noteq> []"
  by (simp add: resolve_hosts_def Let_def)

lemma dispatch_returns:
  "hosts \<noteq> [] \<Longrightarrow>
   dispatch worlds env0 as_completed opts sel hosts
     = Inr (aggregate 0 (map (\<lambda>h. fst (run_host (worlds h) env0 opts sel h)) (as_completed hosts)))"
  by (cases hosts) (simp_all add: dispatch_def)

text \<open>
  Claim C6. For the target list that \<open>main\<close> resolves, whatever the order in which
  the workers finish, the dispatcher returns an exit code (no exception leaves it);
  the code is zero exactly when the worker of every target returned zero; and a worker
  that an exception leaves counts as the result 1 of its target, so that the code is
  not zero.
\<close>

theorem dispatch_aggregate:
  assumes "hosts = resolve_hosts env_names host_specs"
    and "set (as_completed hosts) = set hosts"
  shows "\<exists>rc. main_run worlds env0 as_completed opts sel env_names host_specs = Inr rc
            \<and> (rc = 0 \<longleftrightarrow> (\<forall>h\<in>set hosts. fst (run_host (worlds h) env0 opts sel h) = Inr 0))
            \<and> (\<forall>h\<in>set hosts. \<forall>e. fst (run_host (worlds h) env0 opts sel h) = Inl e
                  \<longrightarrow> result_rc (fst (run_host (worlds h) env0 opts sel h)) = 1 \<and> rc \<noteq> 0)"
proof -
  let ?rc = "aggregate 0 (map (\<lambda>h. fst (run_host (worlds h) env0 opts sel h)) (as_completed hosts))"
  have ne: "hosts \<noteq> []" using assms(1) resolve_hosts_not_empty by simp
  have r: "main_run worlds env0 as_completed opts sel env_names host_specs = Inr ?rc"
    using dispatch_returns [OF ne] assms(1) by (simp add: main_run_def)
  have z: "?rc = 0 \<longleftrightarrow> (\<forall>h\<in>set hosts. fst (run_host (worlds h) env0 opts sel h) = Inr 0)"
    using assms(2) by (simp add: aggregate_zero_iff result_rc_zero_iff)
  have "\<forall>h\<in>set hosts. \<forall>e. fst (run_host (worlds h) env0 opts sel h) = Inl e
          \<longrightarrow> result_rc (fst (run_host (worlds h) env0 opts sel h)) = 1 \<and> ?rc \<noteq> 0"
  proof (intro ballI allI impI conjI)
    fix h e
    assume h: "h \<in> set hosts" "fst (run_host (worlds h) env0 opts sel h) = Inl e"
    then show "result_rc (fst (run_host (worlds h) env0 opts sel h)) = 1" by (simp add: result_rc_def)
    from h show "?rc \<noteq> 0" using z by auto
  qed
  with r z show ?thesis by blast
qed

text \<open>Witness for C6: the local target succeeds, the port of the second target is not
  a number and \<open>int\<close> raises in its worker; the workers finish in the reverse order.\<close>

theorem dispatch_aggregate_witness:
  "main_run (\<lambda>h. only_false_fails) Map.empty rev no_options [(''t'', [''shell true''], [])] [] [''@local'', ''h:abc'']
     = Inr 1
   \<and> fst (run_host only_false_fails Map.empty no_options [(''t'', [''shell true''], [])] ''@local'') = Inr 0
   \<and> fst (run_host only_false_fails Map.empty no_options [(''t'', [''shell true''], [])] ''h:abc'')
       = Inl (ValueError ''invalid literal for int()'')"
proof -
  have h: "[''@local'', ''h:abc''] = resolve_hosts [] [''@local'', ''h:abc'']" by code_simp
  have s: "set (rev [''@local'', ''h:abc'']) = set [''@local'', ''h:abc'']" by auto
  have a: "fst (run_host only_false_fails Map.empty no_options [(''t'', [''shell true''], [])] ''@local'') = Inr 0"
    by code_simp
  have b: "fst (run_host only_false_fails Map.empty no_options [(''t'', [''shell true''], [])] ''h:abc'')
       = Inl (ValueError ''invalid literal for int()'')"
    by code_simp
  have c: "main_run (\<lambda>h. only_false_fails) Map.empty rev no_options [(''t'', [''shell true''], [])] []
             [''@local'', ''h:abc''] = Inr 1"
    by code_simp
  from dispatch_aggregate [of "[''@local'', ''h:abc'']" "[]" "[''@local'', ''h:abc'']" rev "\<lambda>h. only_false_fails"
      Map.empty no_options "[(''t'', [''shell true''], [])]", OF h s]
  obtain rc where "main_run (\<lambda>h. only_false_fails) Map.empty rev no_options [(''t'', [''shell true''], [])] []
             [''@local'', ''h:abc''] = Inr rc" and "rc \<noteq> 0"
    using b by auto
  with a b c show ?thesis by simp
qed

lemma run_host_local:
  "run_host w env0 opts sel ''@local'' =
     (case run_tasks (host_ctx w env0 opts Local) sel [] of
        (Return rc, tr) \<Rightarrow> (Inr rc, tr)
      | (Raise e, tr) \<Rightarrow> (Inl e, tr)
      | (Continue u, tr) \<Rightarrow> (Inr 0, tr))"
  by (simp add: run_host_def parse_host_def open_session_def c_for_def split: prod.splits flow.splits)

text \<open>
  Claim C10. When the environments named and the host specifications given yield no
  host, the target list is the single local target: the dispatcher raises nothing and
  runs one worker, its exit code is the result of that worker, and the worker runs the
  selected tasks with no connection (no session is opened, every command is a local
  process).
\<close>

theorem empty_target_list_runs_local:
  assumes "dedupe_preserve_order (merge_env_hosts env_names @ host_specs) = []"
    and "as_completed [''@local''] = [''@local'']"
  shows "resolve_hosts env_names host_specs = [''@local'']
       \<and> main_run worlds env0 as_completed opts sel env_names host_specs
           = Inr (result_rc (fst (run_host (worlds ''@local'') env0 opts sel ''@local'')))
       \<and> run_host (worlds ''@local'') env0 opts sel ''@local''
           = (case run_tasks (host_ctx (worlds ''@local'') env0 opts Local) sel [] of
                (Return rc, tr) \<Rightarrow> (Inr rc, tr)
              | (Raise e, tr) \<Rightarrow> (Inl e, tr)
              | (Continue u, tr) \<Rightarrow> (Inr 0, tr))
       \<and> connection (host_ctx (worlds ''@local'') env0 opts Local) = None"
  using assms
  by (simp add: resolve_hosts_def main_run_def dispatch_def run_host_local host_ctx_def c_for_def)

text \<open>Witness for C10: an environment name that \<open>ENV_MAP\<close> does not have and no host
  specification; the task runs on the local machine and its failure is the exit code.\<close>

theorem empty_target_list_runs_local_witness:
  "resolve_hosts [''nosuch''] [] = [''@local'']
   \<and> main_run (\<lambda>h. only_false_fails) Map.empty (\<lambda>hs. hs) no_options [(''t'', [''shell false''], [])] [''nosuch''] []
       = Inr 1
   \<and> run_host only_false_fails Map.empty no_options [(''t'', [''shell false''], [])] ''@local''
       = (Inr 1, [(RunLocal ''false'' [], Some 1)])"
proof -
  have 1: "dedupe_preserve_order (merge_env_hosts [''nosuch''] @ []) = []" by code_simp
  have 2: "(\<lambda>hs. hs) [''@local''] = [''@local'']" by simp
  have 3: "run_host only_false_fails Map.empty no_options [(''t'', [''shell false''], [])] ''@local''
       = (Inr 1, [(RunLocal ''false'' [], Some 1)])" by code_simp
  show ?thesis
    using empty_target_list_runs_local [of "[''nosuch'']" "[]" "\<lambda>hs. hs" "\<lambda>h. only_false_fails" Map.empty
        no_options "[(''t'', [''shell false''], [])]", OF 1 2] 3
    by (simp add: result_rc_def)
qed


section \<open>Properties of the sync statement\<close>

lemma replace_all_absent:
  "old \<noteq> [] \<Longrightarrow> hd old \<notin> set s \<Longrightarrow> replace_all old new s = s"
proof (induction s)
  case Nil
  then show ?case by simp
next
  case (Cons c cs)
  have "\<not> startswith (c # cs) old"
  proof
    assume "startswith (c # cs) old"
    then have "take (length old) (c # cs) = old" by (simp add: startswith_def)
    with Cons.prems(1) have "hd old = c" by (cases old) auto
    with Cons.prems(2) show False by simp
  qed
  with Cons show ?case by simp
qed

lemma substitute_vars_no_dollar:
  "CHR ''$'' \<notin> set s \<Longrightarrow> substitute_vars s env = s"
  by (induction env arbitrary: s) (auto simp: replace_all_absent)

lemma sub_val_no_dollar: "CHR ''$'' \<notin> set s \<Longrightarrow> sub_val env (VStr s) = Inr (VStr s)"
  by (simp add: sub_val_def substitute_vars_no_dollar)

lemma show_int_22: "show_int 22 = ''22''"
  by code_simp

lemma shlex_quote_operands: "shlex_quote ''a/'' = ''a/''" "shlex_quote ''u@h:b/'' = ''u@h:b/''"
  by code_simp+

lemma py_int_22: "py_int ''22'' = Some 22" "py_isdigit ''22''"
  by code_simp+

lemma sync_example_runs:
  "execute_sync True (sync_example (VInt 22)) env
     = Inr (Synced [''rsync'', ''-a'', ''-v'', ''--delete'', ''-e'', ''ssh -p 22'', ''a/'', ''u@h:b/'']
              ''rsync -a -v --delete -e ssh -p 22 a/ u@h:b/'')"
  "execute_sync True (sync_example (VStr ''22'')) env
     = Inr (Synced [''rsync'', ''-a'', ''-v'', ''--delete'', ''-e'', ''ssh -p 22'', ''a/'', ''u@h:b/'']
              ''rsync -a -v --delete -e ssh -p 22 a/ u@h:b/'')"
  by (simp_all add: execute_sync_def sync_example_def py_truth_def sub_val_no_dollar bind_exn_def
      exclude_args_def int_val_def show_int_22 py_str_def quote_val_def shlex_quote_operands py_int_22)

lemma sync_example_line_words:
  "shlex_split ''rsync -a -v --delete -e ssh -p 22 a/ u@h:b/''
     = Inr [''rsync'', ''-a'', ''-v'', ''--delete'', ''-e'', ''ssh'', ''-p'', ''22'', ''a/'', ''u@h:b/'']"
  by code_simp

text \<open>
  The transport value is the one argument that does not pass \<open>shlex.quote\<close> before the
  list is joined: the element \<open>ssh -p 22\<close> of \<open>cmd\<close> reaches the shell unquoted and is
  split, so the tool is started with \<open>-e ssh\<close>, then \<open>-p\<close> and \<open>22\<close>, and not with
  \<open>-e\<close> and the one value \<open>ssh -p 22\<close>. The vector of the tool differs from the list
  \<open>cmd\<close>.
\<close>

lemma sync_transport_value_is_split:
  "sync_words (execute_sync True (sync_example (VInt 22)) env)
     = Some [''rsync'', ''-a'', ''-v'', ''--delete'', ''-e'', ''ssh'', ''-p'', ''22'', ''a/'', ''u@h:b/'']"
  "sync_words (execute_sync True (sync_example (VInt 22)) env)
     \<noteq> Some [''rsync'', ''-a'', ''-v'', ''--delete'', ''-e'', ''ssh -p 22'', ''a/'', ''u@h:b/'']"
  by (simp_all add: sync_words_def sync_example_runs sync_example_line_words)

text \<open>
  Claim C8, as the code has it by design; what the transport option becomes is left
  out here (see \<open>sync_transport_value_is_split\<close>). When \<open>rsync\<close> is found on the path:
  for the options \<open>src\<close> a/, \<open>dest\<close> b/, \<open>host\<close> h, \<open>user\<close> u, \<open>port\<close> 22 (the
  integer, or the string the grammar yields) and \<open>delete\<close>, whatever the variables in
  scope, the tool is started with the vector \<open>rsync -a -v --delete\<close>, then the words
  of the transport, then the operands a/ and u@h:b/; and options where \<open>src\<close> or
  \<open>dest\<close> is absent or empty raise the \<open>ValueError\<close>. When \<open>rsync\<close> is not on the
  path the function returns before it reads the options: no command is run and nothing
  is raised.
\<close>

theorem sync_command_line:
  "(rsync_on_path \<longrightarrow>
      (\<exists>transport.
          sync_words (execute_sync rsync_on_path (sync_example (VInt 22)) env)
            = Some ([''rsync'', ''-a'', ''-v'', ''--delete''] @ transport @ [''a/'', ''u@h:b/''])
        \<and> sync_words (execute_sync rsync_on_path (sync_example (VStr ''22'')) env)
            = Some ([''rsync'', ''-a'', ''-v'', ''--delete''] @ transport @ [''a/'', ''u@h:b/''])))
   \<and> (rsync_on_path \<and> (\<not> py_truth (opts ''src'') \<or> \<not> py_truth (opts ''dest'')) \<longrightarrow>
        execute_sync rsync_on_path opts env = Inl (ValueError ''sync requires src and dest''))
   \<and> (\<not> rsync_on_path \<longrightarrow>
        execute_sync rsync_on_path opts env = Inr RsyncMissing
        \<and> sync_words (execute_sync rsync_on_path opts env) = None)"
proof (intro conjI impI)
  assume "rsync_on_path"
  then have r: "rsync_on_path = True" by simp
  have "sync_words (execute_sync True (sync_example port) env)
          = Some ([''rsync'', ''-a'', ''-v'', ''--delete''] @ [''-e'', ''ssh'', ''-p'', ''22''] @ [''a/'', ''u@h:b/''])"
    if "port = VInt 22 \<or> port = VStr ''22''" for port
    using that by (auto simp: sync_words_def sync_example_runs sync_example_line_words)
  then show "\<exists>transport.
          sync_words (execute_sync rsync_on_path (sync_example (VInt 22)) env)
            = Some ([''rsync'', ''-a'', ''-v'', ''--delete''] @ transport @ [''a/'', ''u@h:b/''])
        \<and> sync_words (execute_sync rsync_on_path (sync_example (VStr ''22'')) env)
            = Some ([''rsync'', ''-a'', ''-v'', ''--delete''] @ transport @ [''a/'', ''u@h:b/''])"
    unfolding r by blast
next
  assume "rsync_on_path \<and> (\<not> py_truth (opts ''src'') \<or> \<not> py_truth (opts ''dest''))"
  then show "execute_sync rsync_on_path opts env = Inl (ValueError ''sync requires src and dest'')"
    by (auto simp: execute_sync_def)
next
  assume "\<not> rsync_on_path"
  then show "execute_sync rsync_on_path opts env = Inr RsyncMissing"
    by (simp add: execute_sync_def)
  then show "sync_words (execute_sync rsync_on_path opts env) = None"
    by (simp add: sync_words_def)
qed

text \<open>Witness for C8 as amended: the example with a variable in scope, and options
  without \<open>src\<close>, with \<open>rsync\<close> on the path and without.\<close>

theorem sync_command_line_witness:
  "(\<exists>transport.
      sync_words (execute_sync True (sync_example (VInt 22)) [(''HOME'', ''/root'')])
        = Some ([''rsync'', ''-a'', ''-v'', ''--delete''] @ transport @ [''a/'', ''u@h:b/'']))
   \<and> execute_sync True [''dest'' \<mapsto> VStr ''b/''] [] = Inl (ValueError ''sync requires src and dest'')
   \<and> execute_sync False [''dest'' \<mapsto> VStr ''b/''] [] = Inr RsyncMissing
   \<and> sync_words (execute_sync False [''dest'' \<mapsto> VStr ''b/''] []) = None"
proof -
  have 1: "\<not> py_truth ([''dest'' \<mapsto> VStr ''b/''] ''src'')" by (simp add: py_truth_def)
  have a: "\<exists>transport.
      sync_words (execute_sync True (sync_example (VInt 22)) [(''HOME'', ''/root'')])
        = Some ([''rsync'', ''-a'', ''-v'', ''--delete''] @ transport @ [''a/'', ''u@h:b/''])"
    using sync_command_line [of True "[(''HOME'', ''/root'')]" "[''dest'' \<mapsto> VStr ''b/'']"] by blast
  have b: "execute_sync True [''dest'' \<mapsto> VStr ''b/''] [] = Inl (ValueError ''sync requires src and dest'')"
    using sync_command_line [of True "[]" "[''dest'' \<mapsto> VStr ''b/'']"] 1 by simp
  have c: "execute_sync False [''dest'' \<mapsto> VStr ''b/''] [] = Inr RsyncMissing
           \<and> sync_words (execute_sync False [''dest'' \<mapsto> VStr ''b/''] []) = None"
    using sync_command_line [of False "[]" "[''dest'' \<mapsto> VStr ''b/'']"] by blast
  from a b c show ?thesis by blast
qed

text \<open>Claim C8 as stated fails: options without \<open>src\<close> raise no error when \<open>rsync\<close> is
  not on the path.\<close>

theorem sync_missing_src_counterexample:
  "\<not> py_truth ([''dest'' \<mapsto> VStr ''b/''] ''src'')
   \<and> execute_sync False [''dest'' \<mapsto> VStr ''b/''] [] \<noteq> Inl (ValueError ''sync requires src and dest'')"
  by (simp add: py_truth_def execute_sync_def)


section \<open>Properties of the loader\<close>

text \<open>A stripped line that is not empty begins and ends with a character that is not
  white space.\<close>

lemma py_strip_ends:
  assumes "py_strip s \<noteq> []"
  shows "\<not> is_space (hd (py_strip s)) \<and> \<not> is_space (last (py_strip s))"
proof -
  let ?t = "dropWhile is_space s"
  let ?d = "dropWhile is_space (rev ?t)"
  have ps: "py_strip s = rev ?d" by (simp add: py_strip_def)
  with assms have d: "?d \<noteq> []" by simp
  then have "\<not> is_space (hd ?d)" by (rule hd_dropWhile)
  then have l: "\<not> is_space (last (py_strip s))" using d by (simp add: ps last_rev)
  have t: "?t = rev ?d @ rev (takeWhile is_space (rev ?t))"
    by (metis rev_append rev_rev_ident takeWhile_dropWhile_id)
  have "?t \<noteq> []" using d by (metis dropWhile.simps(1) rev.simps(1))
  then have "\<not> is_space (hd ?t)" by (rule hd_dropWhile)
  moreover have "hd ?t = hd (rev ?d)" using t d by (metis hd_append2 rev_is_Nil_conv)
  ultimately show ?thesis using l by (simp add: ps)
qed

lemma py_strip_nonempty: "x \<in> set s \<Longrightarrow> \<not> is_space x \<Longrightarrow> py_strip s \<noteq> []"
proof -
  assume x: "x \<in> set s" "\<not> is_space x"
  then have "dropWhile is_space s \<noteq> []" by auto
  moreover have "x \<in> set (dropWhile is_space s)"
    using x by (metis Un_iff set_append set_takeWhileD takeWhile_dropWhile_id)
  then have "dropWhile is_space (rev (dropWhile is_space s)) \<noteq> []"
    using x(2) by auto
  then show ?thesis by (simp add: py_strip_def)
qed

text \<open>So a stripped line that starts with a keyword and a space has a second field, and
  the field is not empty when stripped.\<close>

lemma header_split:
  assumes "startswith (py_strip raw) (w @ '' '')" and "w \<noteq> []" and "list_all (\<lambda>c. \<not> is_space c) w"
  shows "\<exists>r. split_ws1 (py_strip raw) = [w, r] \<and> py_strip r \<noteq> []"
proof -
  let ?line = "py_strip raw"
  from assms(1) have "take (length (w @ '' '')) ?line = w @ '' ''" by (simp add: startswith_def)
  then have "?line = (w @ '' '') @ drop (length (w @ '' '')) ?line" by (metis append_take_drop_id)
  then obtain rest where line: "?line = w @ CHR '' '' # rest" by simp
  then have ne: "?line \<noteq> []" by simp
  have sp: "is_space (CHR '' '')" by (simp add: is_space_def)
  have "\<not> is_space (last ?line)" using py_strip_ends [OF ne] by simp
  then have rest: "rest \<noteq> []" "\<not> is_space (last rest)" using line sp by (auto split: if_splits)
  have hdw: "\<not> is_space (hd w)" using assms(2,3) by (cases w) auto
  have s1: "dropWhile is_space ?line = ?line" using line hdw assms(2) by (cases w) auto
  have a: "takeWhile (\<lambda>c. \<not> is_space c) (w @ CHR '' '' # rest) = w"
    using assms(3) sp by (simp add: takeWhile_all)
  have d: "dropWhile (\<lambda>c. \<not> is_space c) (w @ CHR '' '' # rest) = CHR '' '' # rest"
    using assms(3) sp by (simp add: dropWhile_all)
  let ?r = "dropWhile is_space rest"
  have lr: "last rest \<in> set rest" using rest(1) by simp
  then have r: "?r \<noteq> []" using rest(2) by auto
  then have "\<not> is_space (hd ?r)" by (rule hd_dropWhile)
  moreover have "hd ?r \<in> set ?r" using r by simp
  ultimately have "py_strip ?r \<noteq> []" by (rule py_strip_nonempty [rotated])
  moreover have "split_ws1 ?line = [w, ?r]"
    unfolding split_ws1_def s1 using a d r assms(2) sp by (simp add: line Let_def)
  ultimately show ?thesis by blast
qed

text \<open>The parser returns a catalog on every text: neither the \<open>ValueError\<close> for a
  missing task name nor an \<open>IndexError\<close> can be raised.\<close>

lemma parse_lines_returns: "\<exists>c. parse_lines ls tasks cur = Inr c"
proof (induction ls arbitrary: tasks cur)
  case Nil
  show ?case by simp
next
  case (Cons raw rest)
  have task: "\<exists>r. split_ws1 (py_strip raw) = [''task'', r] \<and> py_strip r \<noteq> []"
    if "startswith (py_strip raw) ''task ''"
    using header_split [of raw "''task''"] that by (simp add: is_space_def)
  have desc: "\<exists>r. split_ws1 (py_strip raw) = [''describe'', r] \<and> py_strip r \<noteq> []"
    if "startswith (py_strip raw) ''describe ''"
    using header_split [of raw "''describe''"] that by (simp add: is_space_def)
  show ?case
  proof (cases "py_strip raw = [] \<or> startswith (py_strip raw) ''#''")
    case True
    then show ?thesis using Cons.IH by (simp add: Let_def)
  next
    case False
    show ?thesis
    proof (cases "startswith (py_strip raw) ''task ''")
      case True
      with task obtain r where "split_ws1 (py_strip raw) = [''task'', r]" "py_strip r \<noteq> []" by blast
      with False True show ?thesis using Cons.IH by (simp add: Let_def)
    next
      case nt: False
      show ?thesis
      proof (cases "startswith (py_strip raw) ''describe ''")
        case True
        with desc obtain r where "split_ws1 (py_strip raw) = [''describe'', r]" by blast
        with False nt True show ?thesis using Cons.IH by (auto simp: Let_def split: option.splits)
      next
        case nd: False
        with False nt show ?thesis using Cons.IH by (auto simp: Let_def split: option.splits)
      qed
    qed
  qed
qed

lemma parse_pfyfile_text_never_raises: "\<exists>c. parse_pfyfile_text s = Inr c"
  by (simp add: parse_pfyfile_text_def parse_lines_returns)

text \<open>
  Claim C9 on \<open>parse_pfyfile_text\<close>. A line that is the word \<open>task\<close> with no name (with
  or without white space after it) is stripped before the test for a task header, so it
  never starts with \<open>task\<close> and a space: outside a task it is skipped, inside a task it
  becomes a statement line. No error is raised.
\<close>

theorem task_header_without_name_accepted:
  "parse_pfyfile_text (''task'' @ [CHR 0x0A] @ ''  shell echo hi'' @ [CHR 0x0A] @ ''end'' @ [CHR 0x0A]) = Inr []
   \<and> parse_pfyfile_text (''task a'' @ [CHR 0x0A] @ ''task   '' @ [CHR 0x0A] @ ''end'' @ [CHR 0x0A])
       = Inr [(''a'', \<lparr>lines = [''task''], description = None\<rparr>)]"
  by code_simp

lemma extendsI:
  "visited st \<subseteq> visited st' \<Longrightarrow> reads st' = reads st @ new \<Longrightarrow> distinct new \<Longrightarrow>
   set new \<inter> visited st = {} \<Longrightarrow> set new \<subseteq> visited st' \<Longrightarrow> extends st st'"
  by (simp add: extends_def)

lemma extendsE:
  assumes "extends st st'"
  obtains new where "visited st \<subseteq> visited st'" "reads st' = reads st @ new" "distinct new"
    "set new \<inter> visited st = {}" "set new \<subseteq> visited st'"
proof -
  let ?new = "drop (length (reads st)) (reads st')"
  have "reads st' = reads st @ ?new"
    using assms append_take_drop_id [of "length (reads st)" "reads st'"]
    by (simp add: extends_def Let_def)
  with assms that [of ?new] show thesis
    by (simp add: extends_def Let_def)
qed

lemma extends_refl: "extends st st"
  by (rule extendsI [where new = "[]"]) auto

lemma extends_trans:
  assumes "extends a b" "extends b c"
  shows "extends a c"
proof -
  from assms(1) obtain n1 where 1: "visited a \<subseteq> visited b" "reads b = reads a @ n1" "distinct n1"
    "set n1 \<inter> visited a = {}" "set n1 \<subseteq> visited b" by (rule extendsE)
  from assms(2) obtain n2 where 2: "visited b \<subseteq> visited c" "reads c = reads b @ n2" "distinct n2"
    "set n2 \<inter> visited b = {}" "set n2 \<subseteq> visited c" by (rule extendsE)
  show ?thesis
  proof (rule extendsI [where new = "n1 @ n2"])
    show "distinct (n1 @ n2)" using 1(3,5) 2(3,4) by auto
    show "set (n1 @ n2) \<inter> visited a = {}" using 1(1,4) 2(4) by auto
    show "set (n1 @ n2) \<subseteq> visited c" using 1(5) 2(1,5) by auto
  qed (use 1 2 in auto)
qed

lemma extends_warn: "extends st (st\<lparr>warnings := ws\<rparr>)"
  by (rule extendsI [where new = "[]"]) auto

lemma extends_visit:
  "p \<notin> visited st \<Longrightarrow> extends st (st\<lparr>visited := insert p (visited st), reads := reads st @ [p]\<rparr>)"
  by (rule extendsI [where new = "[p]"]) auto

lemma extends_distinct:
  assumes "extends st st'" "distinct (reads st)" "set (reads st) \<subseteq> visited st"
  shows "distinct (reads st') \<and> set (reads st') \<subseteq> visited st'"
proof -
  from assms(1) obtain new where n: "visited st \<subseteq> visited st'" "reads st' = reads st @ new" "distinct new"
    "set new \<inter> visited st = {}" "set new \<subseteq> visited st'" by (rule extendsE)
  with assms(2,3) show ?thesis by auto
qed

lemma append_out_Some:
  "r = Some (res, st') \<Longrightarrow> \<exists>res'. append_out ls r = Some (res', st')"
  by (cases res) (auto simp: append_out_def)

lemma include_is_no_header:
  assumes "startswith s ''include ''"
  shows "\<not> startswith s ''task '' \<and> s \<noteq> ''end''"
proof -
  from assms have "take (length ''include '') s = ''include ''"
    unfolding startswith_def .
  then have "s = ''include '' @ drop (length ''include '') s"
    by (metis append_take_drop_id)
  then obtain r where "s = ''include '' @ r" ..
  then show ?thesis by (simp add: startswith_def)
qed

lemma include_target_SomeD:
  "include_target base inside s = Some p \<Longrightarrow> \<not> inside \<and> \<not> startswith s ''task '' \<and> s \<noteq> ''end''"
  using include_is_no_header [of s]
  by (auto simp: include_target_def split: if_splits)

lemma expand_task:
  "startswith (py_strip (rstrip_nl raw)) ''task '' \<Longrightarrow>
   expand_lines d fs b (raw # rest) i st = append_out [rstrip_nl raw] (expand_lines d fs b rest True st)"
  by (simp add: Let_def)

lemma expand_end:
  "\<not> startswith (py_strip (rstrip_nl raw)) ''task '' \<Longrightarrow> py_strip (rstrip_nl raw) = ''end'' \<Longrightarrow>
   expand_lines d fs b (raw # rest) i st = append_out [rstrip_nl raw] (expand_lines d fs b rest False st)"
  by (simp add: Let_def)

lemma expand_plain:
  "\<not> startswith (py_strip (rstrip_nl raw)) ''task '' \<Longrightarrow> py_strip (rstrip_nl raw) \<noteq> ''end'' \<Longrightarrow>
   include_target b i (py_strip (rstrip_nl raw)) = None \<Longrightarrow>
   expand_lines d fs b (raw # rest) i st = append_out [rstrip_nl raw] (expand_lines d fs b rest i st)"
  by (simp add: Let_def)

lemma expand_visited:
  "include_target b False (py_strip (rstrip_nl raw)) = Some p \<Longrightarrow> p \<in> visited st \<Longrightarrow>
   expand_lines d fs b (raw # rest) False st = expand_lines d fs b rest False st"
  using include_target_SomeD [of b False "py_strip (rstrip_nl raw)" p] by (simp add: Let_def)

lemma expand_missing:
  "include_target b False (py_strip (rstrip_nl raw)) = Some p \<Longrightarrow> p \<notin> visited st \<Longrightarrow> map_of fs p = None \<Longrightarrow>
   expand_lines d fs b (raw # rest) False st
     = expand_lines d fs b rest False (st\<lparr>warnings := warnings st @ [warn_not_found p]\<rparr>)"
  using include_target_SomeD [of b False "py_strip (rstrip_nl raw)" p] by (simp add: Let_def)

lemma expand_unreadable:
  "include_target b False (py_strip (rstrip_nl raw)) = Some p \<Longrightarrow> p \<notin> visited st \<Longrightarrow>
   map_of fs p = Some Unreadable \<Longrightarrow>
   expand_lines d fs b (raw # rest) False st
     = Some (Inl OSError, st\<lparr>visited := insert p (visited st), reads := reads st @ [p]\<rparr>)"
  using include_target_SomeD [of b False "py_strip (rstrip_nl raw)" p] by (simp add: Let_def)

lemma expand_text:
  "include_target b False (py_strip (rstrip_nl raw)) = Some p \<Longrightarrow> p \<notin> visited st \<Longrightarrow>
   map_of fs p = Some (Text t) \<Longrightarrow>
   expand_lines (Suc d) fs b (raw # rest) False st
     = (case expand_lines d fs (dirname p) (splitlines t) False
              (st\<lparr>visited := insert p (visited st), reads := reads st @ [p]\<rparr>) of
          None \<Rightarrow> None
        | Some (Inl e, st2) \<Rightarrow> Some (Inl e, st2)
        | Some (Inr sub_lines, st2) \<Rightarrow>
            append_out
              [''# --- begin include: '' @ p @ '' ---'', finish_text sub_lines, ''# --- end include: '' @ p @ '' ---'']
              (expand_lines (Suc d) fs b rest False st2))"
  using include_target_SomeD [of b False "py_strip (rstrip_nl raw)" p] by (simp add: Let_def)

declare expand_lines.simps(2) [simp del]

lemma unvisited_mono:
  "visited st \<subseteq> visited st' \<Longrightarrow>
   card (dom (map_of fs) - visited st') \<le> card (dom (map_of fs) - visited st)"
  by (intro card_mono) (auto simp: finite_dom_map_of)

lemma expand_lines_total:
  "card (dom (map_of fs) - visited st) \<le> depth \<Longrightarrow>
   \<exists>res st'. expand_lines depth fs base ls inside st = Some (res, st') \<and> extends st st'"
proof (induction depth arbitrary: base ls inside st rule: less_induct)
  case (less depth)
  note outer = less.IH
  from less.prems show ?case
  proof (induction ls arbitrary: inside st)
    case Nil
    show ?case by (simp add: extends_refl)
  next
    case (Cons raw rest)
    let ?s = "py_strip (rstrip_nl raw)"
    have step: "\<exists>res st'. append_out l (expand_lines depth fs base rest i st) = Some (res, st') \<and> extends st st'"
      for l i
      using Cons.IH [OF Cons.prems, of i] append_out_Some by blast
    consider (task) "startswith ?s ''task ''"
      | (fin) "\<not> startswith ?s ''task ''" "?s = ''end''"
      | (plain) "\<not> startswith ?s ''task ''" "?s \<noteq> ''end''" "include_target base inside ?s = None"
      | (inc) p where "include_target base inside ?s = Some p"
      by (cases "include_target base inside ?s") (auto simp: startswith_def)
    then show ?case
    proof cases
      case task
      then show ?thesis using step by (simp add: expand_task)
    next
      case fin
      then show ?thesis using step by (simp add: expand_end)
    next
      case plain
      then show ?thesis using step by (simp add: expand_plain)
    next
      case (inc p)
      then have "inside = False" using include_target_SomeD by blast
      note inc = inc [unfolded this] and IH = Cons.IH [of _ inside, unfolded this]
      have "\<exists>res st'. expand_lines depth fs base (raw # rest) False st = Some (res, st') \<and> extends st st'"
      proof (cases "p \<in> visited st")
        case True
        then show ?thesis using IH [OF Cons.prems] inc by (simp add: expand_visited)
      next
        case unv: False
        show ?thesis
        proof (cases "map_of fs p")
          case None
          let ?st = "st\<lparr>warnings := warnings st @ [warn_not_found p]\<rparr>"
          have "card (dom (map_of fs) - visited ?st) \<le> depth" using Cons.prems by simp
          from IH [OF this] obtain res st' where
            "expand_lines depth fs base rest False ?st = Some (res, st')" "extends ?st st'" by blast
          moreover have "extends st ?st" by (rule extends_warn)
          ultimately show ?thesis
            using inc unv None extends_trans by (auto simp: expand_missing)
        next
          case (Some node)
          let ?st1 = "st\<lparr>visited := insert p (visited st), reads := reads st @ [p]\<rparr>"
          have e1: "extends st ?st1" using unv by (rule extends_visit)
          show ?thesis
          proof (cases node)
            case Unreadable
            with inc unv Some e1 show ?thesis by (simp add: expand_unreadable)
          next
            case (Text t)
            have "p \<in> dom (map_of fs) - visited st" using Some unv by auto
            then have pos: "card (dom (map_of fs) - visited st) > 0"
              by (metis card_gt_0_iff empty_iff finite_Diff finite_dom_map_of)
            with Cons.prems obtain d where d: "depth = Suc d" by (cases depth) auto
            have "dom (map_of fs) - visited ?st1 = (dom (map_of fs) - visited st) - {p}" by auto
            then have "card (dom (map_of fs) - visited ?st1) = card (dom (map_of fs) - visited st) - 1"
              using \<open>p \<in> dom (map_of fs) - visited st\<close> by (simp add: finite_dom_map_of)
            with Cons.prems d have "card (dom (map_of fs) - visited ?st1) \<le> d" by simp
            from outer [of d ?st1 "dirname p" "splitlines t" False, OF _ this] d
            obtain res1 st2 where r1: "expand_lines d fs (dirname p) (splitlines t) False ?st1 = Some (res1, st2)"
              and e2: "extends ?st1 st2" by auto
            have e12: "extends st st2" using e1 e2 by (rule extends_trans)
            show ?thesis
            proof (cases res1)
              case (Inl e)
              with inc unv Some Text r1 e12 d show ?thesis by (simp add: expand_text)
            next
              case (Inr sub_lines)
              have "visited st \<subseteq> visited st2" using e12 by (auto elim: extendsE)
              then have "card (dom (map_of fs) - visited st2) \<le> depth"
                using unvisited_mono [of st st2 fs] Cons.prems by simp
              from IH [OF this] obtain res st' where
                r2: "expand_lines depth fs base rest False st2 = Some (res, st')" and e3: "extends st2 st'"
                by blast
              from append_out_Some [OF r2] obtain res' where
                "append_out [''# --- begin include: '' @ p @ '' ---'', finish_text sub_lines,
                             ''# --- end include: '' @ p @ '' ---'']
                   (expand_lines depth fs base rest False st2) = Some (res', st')" by blast
              moreover have "extends st st'" using e12 e3 by (rule extends_trans)
              ultimately show ?thesis
                using inc unv Some Text r1 Inr d by (simp add: expand_text)
            qed
          qed
        qed
      qed
      then show ?thesis by (simp add: \<open>inside = False\<close>)
    qed
  qed
qed

lemma card_dom_map_of: "card (dom (map_of fs)) \<le> length fs"
  by (metis card_length dom_map_of_conv_image_fst length_map list.set_map)

text \<open>
  Claim C7. (1) From a state whose reads are distinct and visited, with a depth bound
  of at least the number of files not yet visited, the expansion of any text returns
  (also when the files include each other), and in the state it returns no path was
  read twice and no path visited before was read. (2) So does a whole load, with a
  bound of at least the number of files. (3) An inclusion directive whose resolved path
  is already visited adds nothing: no output line, no warning, no read. (4) One whose
  resolved path does not exist adds a warning and nothing else, and the loop goes on
  with the next line.
\<close>

theorem include_expansion_visits_once:
  "(card (dom (map_of fs) - visited st) \<le> depth \<and> distinct (reads st) \<and> set (reads st) \<subseteq> visited st \<longrightarrow>
      (\<exists>res st'. expand_includes_from_text depth fs txt base st = Some (res, st')
          \<and> distinct (reads st') \<and> set (reads st') \<subseteq> visited st' \<and> visited st \<subseteq> visited st'
          \<and> set (drop (length (reads st)) (reads st')) \<inter> visited st = {}))
   \<and> (length fs \<le> depth \<longrightarrow>
        (\<exists>res st'. load_pfy_source_with_includes depth fs root = Some (res, st') \<and> distinct (reads st')))
   \<and> (include_target base inside (py_strip (rstrip_nl raw)) = Some p \<and> p \<in> visited st \<longrightarrow>
        expand_lines depth fs base (raw # rest) inside st = expand_lines depth fs base rest inside st)
   \<and> (include_target base inside (py_strip (rstrip_nl raw)) = Some p \<and> p \<notin> visited st \<and> map_of fs p = None \<longrightarrow>
        expand_lines depth fs base (raw # rest) inside st
          = expand_lines depth fs base rest inside (st\<lparr>warnings := warnings st @ [warn_not_found p]\<rparr>))"
proof (intro conjI impI)
  assume a: "card (dom (map_of fs) - visited st) \<le> depth \<and> distinct (reads st) \<and> set (reads st) \<subseteq> visited st"
  then obtain res st' where r: "expand_lines depth fs base (splitlines txt) False st = Some (res, st')"
    and e: "extends st st'" using expand_lines_total by blast
  have "distinct (reads st') \<and> set (reads st') \<subseteq> visited st'"
    using extends_distinct [OF e] a by simp
  moreover have "visited st \<subseteq> visited st' \<and> set (drop (length (reads st)) (reads st')) \<inter> visited st = {}"
    using e by (simp add: extends_def Let_def)
  moreover have "\<exists>res'. expand_includes_from_text depth fs txt base st = Some (res', st')"
    using r by (cases res) (simp_all add: expand_includes_from_text_def)
  ultimately show "\<exists>res st'. expand_includes_from_text depth fs txt base st = Some (res, st')
          \<and> distinct (reads st') \<and> set (reads st') \<subseteq> visited st' \<and> visited st \<subseteq> visited st'
          \<and> set (drop (length (reads st)) (reads st')) \<inter> visited st = {}" by blast
next
  assume len: "length fs \<le> depth"
  show "\<exists>res st'. load_pfy_source_with_includes depth fs root = Some (res, st') \<and> distinct (reads st')"
  proof (cases "map_of fs root")
    case None
    then show ?thesis by (simp add: load_pfy_source_with_includes_def)
  next
    case (Some node)
    let ?st0 = "\<lparr>visited = {root}, warnings = [], reads = [root]\<rparr>"
    show ?thesis
    proof (cases node)
      case Unreadable
      with Some show ?thesis by (simp add: load_pfy_source_with_includes_def)
    next
      case (Text main_text)
      let ?b = "if dirname root = [] then ''.'' else dirname root"
      have "card (dom (map_of fs) - visited ?st0) \<le> card (dom (map_of fs))"
        by (intro card_mono) (auto simp: finite_dom_map_of)
      then have c: "card (dom (map_of fs) - visited ?st0) \<le> depth"
        using card_dom_map_of [of fs] len by simp
      from expand_lines_total [OF c, of ?b "splitlines main_text" False]
      obtain res st' where r: "expand_lines depth fs ?b (splitlines main_text) False ?st0 = Some (res, st')"
        and e: "extends ?st0 st'" by blast
      have "distinct (reads st')" using extends_distinct [OF e] by simp
      moreover have "\<exists>res'. load_pfy_source_with_includes depth fs root = Some (res', st')"
        using r Some Text
        by (cases res) (simp_all add: load_pfy_source_with_includes_def expand_includes_from_text_def Let_def)
      ultimately show ?thesis by blast
    qed
  qed
next
  assume a: "include_target base inside (py_strip (rstrip_nl raw)) = Some p \<and> p \<in> visited st"
  then have "inside = False" using include_target_SomeD by blast
  with a show "expand_lines depth fs base (raw # rest) inside st = expand_lines depth fs base rest inside st"
    by (simp add: expand_visited)
next
  assume a: "include_target base inside (py_strip (rstrip_nl raw)) = Some p \<and> p \<notin> visited st \<and> map_of fs p = None"
  then have "inside = False" using include_target_SomeD by blast
  with a show "expand_lines depth fs base (raw # rest) inside st
          = expand_lines depth fs base rest inside (st\<lparr>warnings := warnings st @ [warn_not_found p]\<rparr>)"
    by (simp add: expand_missing)
qed

text \<open>Witness for C7: the load of a file in a cycle of two, with a bound of 2.\<close>

theorem include_expansion_visits_once_witness:
  "map_option (\<lambda>(res, st). (res, reads st, warnings st)) (load_pfy_source_with_includes 2 cyclic_fs ''/r/a.pf'')
     = Some (Inr (''# --- begin include: /r/b.pf ---'' @ [CHR 0x0A] @ ''# shared'' @ [CHR 0x0A, CHR 0x0A]
                  @ ''# --- end include: /r/b.pf ---'' @ [CHR 0x0A] @ ''task t'' @ [CHR 0x0A]
                  @ ''  include b.pf'' @ [CHR 0x0A] @ ''end'' @ [CHR 0x0A]),
             [''/r/a.pf'', ''/r/b.pf''], [''[warn] include file not found: /r/nope.pf''])
   \<and> include_target ''/r'' False (py_strip (rstrip_nl ''include ./sub/../b.pf'')) = Some ''/r/b.pf''
   \<and> include_target ''/r'' False (py_strip (rstrip_nl ''include nope.pf'')) = Some ''/r/nope.pf''
   \<and> map_of cyclic_fs ''/r/nope.pf'' = None"
proof -
  have 1: "length cyclic_fs \<le> 2" by (simp add: cyclic_fs_def)
  have 2: "map_option (\<lambda>(res, st). (res, reads st, warnings st)) (load_pfy_source_with_includes 2 cyclic_fs ''/r/a.pf'')
     = Some (Inr (''# --- begin include: /r/b.pf ---'' @ [CHR 0x0A] @ ''# shared'' @ [CHR 0x0A, CHR 0x0A]
                  @ ''# --- end include: /r/b.pf ---'' @ [CHR 0x0A] @ ''task t'' @ [CHR 0x0A]
                  @ ''  include b.pf'' @ [CHR 0x0A] @ ''end'' @ [CHR 0x0A]),
             [''/r/a.pf'', ''/r/b.pf''], [''[warn] include file not found: /r/nope.pf''])"
    by code_simp
  have 3: "include_target ''/r'' False (py_strip (rstrip_nl ''include ./sub/../b.pf'')) = Some ''/r/b.pf''"
    by code_simp
  have 4: "include_target ''/r'' False (py_strip (rstrip_nl ''include nope.pf'')) = Some ''/r/nope.pf''"
    by code_simp
  have 5: "map_of cyclic_fs ''/r/nope.pf'' = None" by code_simp
  from include_expansion_visits_once [of cyclic_fs "\<lparr>visited = {''/r/a.pf''}, warnings = [], reads = [''/r/a.pf'']\<rparr>" 2
      "[]" "''/r''" "''/r/a.pf''" False "''include nope.pf''" "''/r/nope.pf''" "[]"] 1
  have "\<exists>res st'. load_pfy_source_with_includes 2 cyclic_fs ''/r/a.pf'' = Some (res, st') \<and> distinct (reads st')"
    by blast
  with 2 3 4 5 show ?thesis by simp
qed

end
